theory Spec2Isabelle
  imports Main
begin

section \<open>Values of the host environment\<close>

text \<open>
  The controller of \<^verbatim>\<open>app-controller.ts\<close> runs in a browser. This section models the
  values it handles: JavaScript numbers as far as \<^verbatim>\<open>parseInt\<close> produces them, thrown
  errors, and the two helpers imported from \<^verbatim>\<open>./utils\<close>.

  A number is given by the mathematical value of the double; \<open>-0\<close> is identified with
  \<open>0\<close>.
\<close>

datatype number = NaN | Finite int | PosInfinity | NegInfinity

type_synonym bytes = "nat list"

datatype error =
    ValueExpected "string option"
  | TypeError
  | Failure string

datatype completion = Normal | Throw error

text \<open>
  Modelled from the spec: \<^verbatim>\<open>utils.ts\<close> (\<^verbatim>\<open>expectNotNull\<close>, \<^verbatim>\<open>unwrapNull\<close>) is not among
  the sources. The spec calls a null handed to either of them a "value expected" failure;
  \<^verbatim>\<open>expectNotNull\<close> carries the caller's message, \<^verbatim>\<open>unwrapNull\<close> takes none. \<open>None\<close> is
  \<^verbatim>\<open>null\<close>.
\<close>

definition expectNotNull :: "'a option \<Rightarrow> string \<Rightarrow> error + 'a" where
  "expectNotNull v message =
     (case v of None \<Rightarrow> Inl (ValueExpected (Some message)) | Some x \<Rightarrow> Inr x)"

definition unwrapNull :: "'a option \<Rightarrow> error + 'a" where
  "unwrapNull v = (case v of None \<Rightarrow> Inl (ValueExpected None) | Some x \<Rightarrow> Inr x)"

subsection \<open>The regular expression of \<^verbatim>\<open>updateAALevel\<close>\<close>

text \<open>
  \<^verbatim>\<open>/^([a-z-]+)(?:-([0-9]+))?$/.exec(s)\<close>, as the backtracking matcher runs it. The
  expression has no flags, so \<^verbatim>\<open>^\<close> and \<^verbatim>\<open>$\<close> are the two ends of the input.
  The result is \<open>None\<close> for \<^verbatim>\<open>null\<close>, else group 1 and group 2, where a group that took no
  part in the match is \<^verbatim>\<open>undefined\<close> (\<open>None\<close>), not the empty string.
\<close>

definition is_name_char :: "char \<Rightarrow> bool" where
  "is_name_char c = (c \<in> set ''abcdefghijklmnopqrstuvwxyz-'')"

definition is_digit :: "char \<Rightarrow> bool" where
  "is_digit c = (c \<in> set ''0123456789'')"

text \<open>
  \<^verbatim>\<open>(?:-([0-9]+))?$\<close> at the rest of the input. The optional group is tried first: a
  hyphen and the longest run of digits, which must reach the end of the input. Without
  it, \<^verbatim>\<open>$\<close> needs the rest to be empty.
\<close>

definition match_level :: "string \<Rightarrow> string option option" where
  "match_level rest =
     (case rest of
        [] \<Rightarrow> Some None
      | c # ds \<Rightarrow>
          if c = CHR ''-'' \<and> ds \<noteq> [] \<and> list_all is_digit ds then Some (Some ds) else None)"

text \<open>
  \<^verbatim>\<open>([a-z-]+)\<close> is greedy: it first takes the longest run of name characters and gives
  characters back one at a time, down to one character, until the rest matches.
\<close>

fun match_name :: "nat \<Rightarrow> string \<Rightarrow> (string \<times> string option) option" where
  "match_name 0 s = None"
| "match_name (Suc k) s =
     (case match_level (drop (Suc k) s) of
        Some g2 \<Rightarrow> Some (take (Suc k) s, g2)
      | None \<Rightarrow> match_name k s)"

definition aa_regexp_exec :: "string \<Rightarrow> (string \<times> string option) option" where
  "aa_regexp_exec s = match_name (length (takeWhile is_name_char s)) s"

subsection \<open>\<^verbatim>\<open>parseInt\<close>\<close>

text \<open>
  The nearest double of a non-negative integer, ties to even: 53 bits of precision, and
  infinity from \<open>2 ^ 1024\<close> on.
\<close>

function bit_length :: "int \<Rightarrow> nat" where
  "bit_length n = (if n \<le> 0 then 0 else Suc (bit_length (n div 2)))"
  by pat_completeness auto
termination
  by (relation "measure nat") auto

definition to_double :: "int \<Rightarrow> number" where
  "to_double n =
     (if n < 2 ^ 53 then Finite n
      else
        let e = bit_length n - 53;
            q = n div 2 ^ e;
            r = n mod 2 ^ e;
            half = 2 ^ (e - 1);
            q' = (if half < r \<or> (r = half \<and> odd q) then q + 1 else q)
        in if 2 ^ 1024 \<le> q' * 2 ^ e then PosInfinity else Finite (q' * 2 ^ e))"

definition negate :: "number \<Rightarrow> number" where
  "negate x =
     (case x of NaN \<Rightarrow> NaN | Finite i \<Rightarrow> Finite (- i)
      | PosInfinity \<Rightarrow> NegInfinity | NegInfinity \<Rightarrow> PosInfinity)"

definition is_white :: "char \<Rightarrow> bool" where
  "is_white c = (of_char c \<in> {9, 10, 11, 12, 13, 32 :: nat})"

definition digit_of :: "char \<Rightarrow> int option" where
  "digit_of c =
     (let n = of_char c :: int in
      if 48 \<le> n \<and> n \<le> 57 then Some (n - 48)
      else if 97 \<le> n \<and> n \<le> 122 then Some (n - 87)
      else if 65 \<le> n \<and> n \<le> 90 then Some (n - 55)
      else None)"

definition is_radix_digit :: "int \<Rightarrow> char \<Rightarrow> bool" where
  "is_radix_digit radix c = (case digit_of c of None \<Rightarrow> False | Some d \<Rightarrow> d < radix)"

definition digits_value :: "int \<Rightarrow> string \<Rightarrow> int" where
  "digits_value radix ds = foldl (\<lambda>n c. radix * n + (case digit_of c of None \<Rightarrow> 0 | Some d \<Rightarrow> d)) 0 ds"

text \<open>
  \<^verbatim>\<open>parseInt(string)\<close> with the radix left out, on a string of 8-bit characters: leading
  white space (of ASCII), a sign, a hexadecimal prefix, then the longest run of digits.
  Of the freedom ECMAScript leaves beyond 20 significant digits the model takes none.
\<close>

definition parseInt_string :: "string \<Rightarrow> number" where
  "parseInt_string input =
     (let s = dropWhile is_white input;
          negative = (s \<noteq> [] \<and> hd s = CHR ''-'');
          s1 = (if s \<noteq> [] \<and> (hd s = CHR ''-'' \<or> hd s = CHR ''+'') then tl s else s);
          hex = (take 2 s1 = ''0x'' \<or> take 2 s1 = ''0X'');
          radix = (if hex then 16 else 10);
          s2 = (if hex then drop 2 s1 else s1);
          z = takeWhile (is_radix_digit radix) s2
      in if z = [] then NaN
         else if negative then negate (to_double (digits_value radix z))
         else to_double (digits_value radix z))"

text \<open>
  The argument as the code passes it: an element of the match array, which is a string
  or \<^verbatim>\<open>undefined\<close> (\<open>None\<close>); \<^verbatim>\<open>parseInt\<close> converts \<^verbatim>\<open>undefined\<close> to the string
  \<^verbatim>\<open>"undefined"\<close> first.
\<close>

definition parseInt :: "string option \<Rightarrow> number" where
  "parseInt v = parseInt_string (case v of None \<Rightarrow> ''undefined'' | Some s \<Rightarrow> s)"

section \<open>The document\<close>

text \<open>
  The elements that the controller looks up by id. A reference to an element is its
  name; its mutable state lives in the document. The type assertions of the source
  (\<^verbatim>\<open>as HTMLSelectElement\<close> and the like) check nothing at run time; the model takes
  the markup to give each id to an element of the asserted kind, and to use the id
  \<^verbatim>\<open>pf-custom-option-placeholder\<close> only for options of the preset selector.
\<close>

datatype element =
    PfCanvas | PfSettings | PfSettingsButton | PfSettingsCloseButton
  | PfFileSelect | PfSelectFile | PfAALevelSelect

record option_element =
  option_id :: string
  value_attribute :: "string option"
  option_text :: string

text \<open>\<^verbatim>\<open>option.value\<close>: the value attribute, or the text of an option without one.\<close>

definition option_value :: "option_element \<Rightarrow> string" where
  "option_value opt = (case value_attribute opt of Some v \<Rightarrow> v | None \<Rightarrow> option_text opt)"

text \<open>A drop-down selector with at most one selected option; index \<open>-1\<close> is none.\<close>

record select_element =
  options :: "option_element list"
  selectedIndex :: int

record picked_file =
  file_name :: string
  file_bytes :: bytes

text \<open>
  \<open>pf_settings\<close> holds the class list of the settings panel, \<open>pf_file_select\<close> the
  \<^verbatim>\<open>files\<close> property of the file input (a list, or \<^verbatim>\<open>null\<close> for an input that is not
  a file input). \<open>None\<close> and \<open>False\<close> say that the element is absent.
\<close>

record document =
  pf_canvas :: bool
  pf_settings :: "string list option"
  pf_settings_button :: bool
  pf_settings_close_button :: bool
  pf_file_select :: "picked_file list option option"
  pf_select_file :: "select_element option"
  pf_aa_level_select :: "select_element option"

definition element_present :: "document \<Rightarrow> element \<Rightarrow> bool" where
  "element_present d e =
     (case e of
        PfCanvas \<Rightarrow> pf_canvas d
      | PfSettings \<Rightarrow> pf_settings d \<noteq> None
      | PfSettingsButton \<Rightarrow> pf_settings_button d
      | PfSettingsCloseButton \<Rightarrow> pf_settings_close_button d
      | PfFileSelect \<Rightarrow> pf_file_select d \<noteq> None
      | PfSelectFile \<Rightarrow> pf_select_file d \<noteq> None
      | PfAALevelSelect \<Rightarrow> pf_aa_level_select d \<noteq> None)"

definition element_ids :: "(string \<times> element) list" where
  "element_ids =
     [(''pf-canvas'', PfCanvas),
      (''pf-settings'', PfSettings),
      (''pf-settings-button'', PfSettingsButton),
      (''pf-settings-close-button'', PfSettingsCloseButton),
      (''pf-file-select'', PfFileSelect),
      (''pf-select-file'', PfSelectFile),
      (''pf-aa-level-select'', PfAALevelSelect)]"

text \<open>\<^verbatim>\<open>document.getElementById\<close>: \<open>None\<close> is \<^verbatim>\<open>null\<close>.\<close>

definition getElementById :: "document \<Rightarrow> string \<Rightarrow> element option" where
  "getElementById d i =
     (case map_of element_ids i of
        None \<Rightarrow> None
      | Some e \<Rightarrow> if element_present d e then Some e else None)"

definition the_select :: "document \<Rightarrow> element \<Rightarrow> select_element option" where
  "the_select d e =
     (case e of
        PfSelectFile \<Rightarrow> pf_select_file d
      | PfAALevelSelect \<Rightarrow> pf_aa_level_select d
      | _ \<Rightarrow> None)"

definition put_select :: "element \<Rightarrow> select_element \<Rightarrow> document \<Rightarrow> document" where
  "put_select e sel d =
     (case e of
        PfSelectFile \<Rightarrow> d\<lparr>pf_select_file := Some sel\<rparr>
      | PfAALevelSelect \<Rightarrow> d\<lparr>pf_aa_level_select := Some sel\<rparr>
      | _ \<Rightarrow> d)"

definition selectedOptions :: "select_element \<Rightarrow> option_element list" where
  "selectedOptions sel =
     (if 0 \<le> selectedIndex sel \<and> selectedIndex sel < int (length (options sel))
      then [options sel ! nat (selectedIndex sel)] else [])"

text \<open>
  \<^verbatim>\<open>select.insertBefore(newOption, child)\<close> with the child at position \<open>pos\<close>: the new
  option is not selected, and the selected option stays selected, so its index moves.
\<close>

definition insertBefore :: "option_element \<Rightarrow> nat \<Rightarrow> select_element \<Rightarrow> select_element" where
  "insertBefore newOption pos sel =
     sel\<lparr>options := take pos (options sel) @ [newOption] @ drop pos (options sel),
         selectedIndex :=
           (if int pos \<le> selectedIndex sel then selectedIndex sel + 1 else selectedIndex sel)\<rparr>"

text \<open>The setter of \<^verbatim>\<open>selectedIndex\<close>: an index out of range selects nothing.\<close>

definition set_selectedIndex :: "int \<Rightarrow> select_element \<Rightarrow> select_element" where
  "set_selectedIndex i sel =
     sel\<lparr>selectedIndex := (if 0 \<le> i \<and> i < int (length (options sel)) then i else - 1)\<rparr>"

text \<open>
  \<^verbatim>\<open>select.removeChild(child)\<close> with the child at position \<open>pos\<close>. When the selected
  option goes, a drop-down falls back to its first option.
\<close>

definition removeChild :: "nat \<Rightarrow> select_element \<Rightarrow> select_element" where
  "removeChild pos sel =
     sel\<lparr>options := take pos (options sel) @ drop (Suc pos) (options sel),
         selectedIndex :=
           (if selectedIndex sel = int pos
            then (if length (options sel) \<le> 1 then - 1 else 0)
            else if int pos < selectedIndex sel then selectedIndex sel - 1
            else selectedIndex sel)\<rparr>"

text \<open>
  \<^verbatim>\<open>document.getElementById('pf-custom-option-placeholder')\<close>: the position of the first
  option with the given id among the options of the selector.
\<close>

fun option_index :: "string \<Rightarrow> option_element list \<Rightarrow> nat option" where
  "option_index i [] = None"
| "option_index i (opt # opts) =
     (if option_id opt = i then Some 0 else map_option Suc (option_index i opts))"

text \<open>The \<^verbatim>\<open>files\<close> property of an element.\<close>

definition files :: "document \<Rightarrow> element \<Rightarrow> picked_file list option" where
  "files d e =
     (case e of
        PfFileSelect \<Rightarrow> (case pf_file_select d of None \<Rightarrow> None | Some fs \<Rightarrow> fs)
      | _ \<Rightarrow> None)"

text \<open>\<^verbatim>\<open>classList.toggle\<close> and \<^verbatim>\<open>classList.add\<close>.\<close>

definition toggle_class :: "string \<Rightarrow> string list \<Rightarrow> string list" where
  "toggle_class c cs = (if c \<in> set cs then removeAll c cs else cs @ [c])"

definition add_class :: "string \<Rightarrow> string list \<Rightarrow> string list" where
  "add_class c cs = (if c \<in> set cs then cs else cs @ [c])"

definition update_classList :: "element \<Rightarrow> (string list \<Rightarrow> string list) \<Rightarrow> document \<Rightarrow> document" where
  "update_classList e f d =
     (case e of PfSettings \<Rightarrow> d\<lparr>pf_settings := map_option f (pf_settings d)\<rparr> | _ \<Rightarrow> d)"

section \<open>The controller and its runtime\<close>

text \<open>
  The shader sources (\<^verbatim>\<open>ShaderMap<ShaderProgramSource>\<close>) are opaque to the controller, which
  only passes them on.
\<close>

datatype shader_sources = ShaderSources "string list"

text \<open>
  The abstract members of the class, other than \<^verbatim>\<open>fileLoaded\<close>. \<^verbatim>\<open>createView\<close> may
  throw (\<open>Inl\<close>).
\<close>

record 'v implementation =
  builtinFileURI :: string
  defaultFile :: string
  createView :: "element option \<Rightarrow> string \<Rightarrow> shader_sources \<Rightarrow> error + 'v"

text \<open>
  The promise of line 52, \<^verbatim>\<open>this.view\<close>. While it is pending it holds the callbacks
  that \<^verbatim>\<open>updateAALevel\<close> has registered with \<^verbatim>\<open>then\<close>, each with the two variables it
  captured.
\<close>

datatype 'v view_promise =
    ViewPending "(string \<times> number) list"
  | ViewFulfilled 'v
  | ViewRejected error

datatype 'a settled = Pending | Fulfilled 'a | Rejected error

text \<open>
  Modelled from the spec: \<^verbatim>\<open>shader-loader.ts\<close> is not among the sources. Its \<^verbatim>\<open>common\<close>
  and \<^verbatim>\<open>shaders\<close> are two awaitable resources that the environment settles after
  \<^verbatim>\<open>load()\<close>. The record also holds the promise of \<^verbatim>\<open>Promise.all\<close>: the values it has
  collected so far, whether it is settled, and the canvas captured by the callback that
  line 52 registers on it.
\<close>

record shader_loading =
  common :: "string settled"
  shaders :: "shader_sources settled"
  all_values :: "string option \<times> shader_sources option"
  all_settled :: bool
  all_canvas :: "element option"

datatype file_data = Undefined | Null | ArrayBuffer bytes

datatype reader = Empty | Loading picked_file | Done file_data

datatype request = AwaitingResponse | ResponseReceived | AwaitingBody | Finished

datatype target = Element element | Reader nat

datatype listener =
    ToggleSettings
  | HideSettings
  | LoadFile
  | FileSelectionChanged
  | UpdateAALevel
  | LoadEnd nat

text \<open>The callbacks that wait in the microtask queue, with their arguments.\<close>

datatype 'v job =
    AllResolveCommon string
  | AllResolveShaders shader_sources
  | AllReject error
  | ViewCallback "element option" string shader_sources
  | ViewReject error
  | AACallback 'v string number
  | ResponseCallback nat nat
  | DataCallback bytes

text \<open>The calls that the controller makes on its collaborators, in order.\<close>

datatype 'v effect =
    ShaderLoaderLoad
  | Click element
  | Fetch string
  | ResponseArrayBuffer nat nat
  | ReadAsArrayBuffer nat picked_file
  | FileLoaded file_data
  | CreateView "element option" string shader_sources
  | SetAntialiasingOptions 'v string number

text \<open>
  The fields of the class (\<open>view\<close> to \<open>settingsCloseButton\<close>; \<open>None\<close> is
  \<^verbatim>\<open>undefined\<close> or \<^verbatim>\<open>null\<close>), and the environment they live in.
\<close>

record 'v world =
  view :: "'v view_promise option"
  fileData :: file_data
  canvas :: "element option"
  filePickerElement :: "element option"
  aaLevelSelect :: "element option"
  settingsCard :: "element option"
  settingsButton :: "element option"
  settingsCloseButton :: "element option"
  doc :: document
  listeners :: "(target \<times> string \<times> listener) list"
  shader_loader :: "shader_loading option"
  microtasks :: "'v job list"
  requests :: "request list"
  readers :: "reader list"
  trace :: "'v effect list"

definition initial_world :: "document \<Rightarrow> 'v world" where
  "initial_world d =
     \<lparr>view = None, fileData = Undefined, canvas = None, filePickerElement = None,
      aaLevelSelect = None, settingsCard = None, settingsButton = None,
      settingsCloseButton = None, doc = d, listeners = [], shader_loader = None,
      microtasks = [], requests = [], readers = [], trace = []\<rparr>"

definition addEventListener :: "target \<Rightarrow> string \<Rightarrow> listener \<Rightarrow> 'v world \<Rightarrow> 'v world" where
  "addEventListener t ty l w = w\<lparr>listeners := listeners w @ [(t, ty, l)]\<rparr>"

definition emit :: "'v effect \<Rightarrow> 'v world \<Rightarrow> 'v world" where
  "emit x w = w\<lparr>trace := trace w @ [x]\<rparr>"

definition enqueue :: "'v job list \<Rightarrow> 'v world \<Rightarrow> 'v world" where
  "enqueue js w = w\<lparr>microtasks := microtasks w @ js\<rparr>"

section \<open>The operations of \<^verbatim>\<open>AppController\<close>\<close>

text \<open>
  An operation returns how it completed and the world it left; a world changed before a
  throw stays changed.

  \<^verbatim>\<open>this.view.then(view => view.setAntialiasingOptions(aaType, aaLevel))\<close>: on a pending
  promise the callback is stored, on a fulfilled one it is queued as a microtask, on a
  rejected one it never runs.
\<close>

definition view_then :: "'v view_promise \<Rightarrow> string \<Rightarrow> number \<Rightarrow> 'v world \<Rightarrow> 'v world" where
  "view_then p aaType aaLevel w =
     (case p of
        ViewPending callbacks \<Rightarrow> w\<lparr>view := Some (ViewPending (callbacks @ [(aaType, aaLevel)]))\<rparr>
      | ViewFulfilled v \<Rightarrow> enqueue [AACallback v aaType aaLevel] w
      | ViewRejected e \<Rightarrow> w)"

text \<open>
  Lines 66 to 69: the pair \<open>(aaType, aaLevel)\<close> that \<^verbatim>\<open>updateAALevel\<close> reads off the
  selected option. Reading a property of \<^verbatim>\<open>null\<close> or \<^verbatim>\<open>undefined\<close> is a type error.
\<close>

definition aa_selection :: "'v world \<Rightarrow> error + (string \<times> number)" where
  "aa_selection w =
     (case aaLevelSelect w of
        None \<Rightarrow> Inl TypeError
      | Some el \<Rightarrow>
     (case the_select (doc w) el of
        None \<Rightarrow> Inl TypeError
      | Some sel \<Rightarrow>
     (case selectedOptions sel of
        [] \<Rightarrow> Inl TypeError
      | selectedOption # _ \<Rightarrow>
     (case unwrapNull (aa_regexp_exec (option_value selectedOption)) of
        Inl e \<Rightarrow> Inl e
      | Inr aaValues \<Rightarrow>
          let aaType = fst aaValues;
              aaLevel = (if snd aaValues = Some [] then Finite 1 else parseInt (snd aaValues))
          in Inr (aaType, aaLevel)))))"

text \<open>Lines 65 to 71.\<close>

definition updateAALevel :: "'v world \<Rightarrow> completion \<times> 'v world" where
  "updateAALevel w =
     (case aa_selection w of
        Inl e \<Rightarrow> (Throw e, w)
      | Inr (aaType, aaLevel) \<Rightarrow>
          (case view w of
             None \<Rightarrow> (Throw TypeError, w)
           | Some p \<Rightarrow> (Normal, view_then p aaType aaLevel w)))"

text \<open>\<^verbatim>\<open>this.fileLoaded()\<close>: the call is recorded with what \<open>fileData\<close> holds at that time.\<close>

definition fileLoaded :: "'v world \<Rightarrow> 'v world" where
  "fileLoaded w = emit (FileLoaded (fileData w)) w"

text \<open>
  \<^verbatim>\<open>reader.readAsArrayBuffer(file)\<close>: an argument that is not a file (here
  \<^verbatim>\<open>undefined\<close>, \<open>None\<close>) is a type error.
\<close>

definition readAsArrayBuffer :: "nat \<Rightarrow> picked_file option \<Rightarrow> 'v world \<Rightarrow> completion \<times> 'v world" where
  "readAsArrayBuffer r f w =
     (case f of
        None \<Rightarrow> (Throw TypeError, w)
      | Some x \<Rightarrow> (Normal, emit (ReadAsArrayBuffer r x) (w\<lparr>readers := (readers w)[r := Loading x]\<rparr>)))"

text \<open>Lines 73 to 82; \<open>tgt\<close> is \<^verbatim>\<open>event.target\<close>.\<close>

definition loadFile :: "element \<Rightarrow> 'v world \<Rightarrow> completion \<times> 'v world" where
  "loadFile tgt w =
     (case expectNotNull (files (doc w) tgt) ''No file selected!'' of
        Inl e \<Rightarrow> (Throw e, w)
      | Inr fs \<Rightarrow>
          let f = (case fs of [] \<Rightarrow> None | x # _ \<Rightarrow> Some x);
              r = length (readers w);
              w1 = w\<lparr>readers := readers w @ [Empty]\<rparr>;
              w2 = addEventListener (Reader r) ''loadend'' (LoadEnd r) w1
          in readAsArrayBuffer r f w2)"

text \<open>The callback of lines 77 to 80, for reader \<open>r\<close>.\<close>

definition loadend :: "nat \<Rightarrow> 'v world \<Rightarrow> 'v world" where
  "loadend r w =
     fileLoaded (w\<lparr>fileData :=
       (if r < length (readers w)
        then (case readers w ! r of Done res \<Rightarrow> res | _ \<Rightarrow> Null)
        else Null)\<rparr>)"

text \<open>
  Lines 109 to 116, up to the call of \<^verbatim>\<open>window.fetch\<close>, which is a GET request as no
  method is given. The two callbacks are \<open>ResponseCallback\<close> and \<open>DataCallback\<close> below.
\<close>

definition fetchFile :: "'v implementation \<Rightarrow> string \<Rightarrow> 'v world \<Rightarrow> 'v world" where
  "fetchFile sub f w =
     emit (Fetch (builtinFileURI sub @ ''/'' @ f)) (w\<lparr>requests := requests w @ [AwaitingResponse]\<rparr>)"

text \<open>Lines 61 to 63.\<close>

definition loadInitialFile :: "'v implementation \<Rightarrow> 'v world \<Rightarrow> 'v world" where
  "loadInitialFile sub w = fetchFile sub (defaultFile sub) w"

text \<open>
  Lines 84 to 107; \<open>tgt\<close> is \<^verbatim>\<open>event.target\<close>. The test of line 88 holds when the value
  is \<^verbatim>\<open>load-custom\<close> and \<open>filePickerElement\<close> is bound: the case \<open>Some picker\<close>. The
  selected option is the child at the selected index.
\<close>

definition fileSelectionChanged :: "'v implementation \<Rightarrow> element \<Rightarrow> 'v world \<Rightarrow> completion \<times> 'v world" where
  "fileSelectionChanged sub tgt w =
     (case the_select (doc w) tgt of
        None \<Rightarrow> (Throw TypeError, w)
      | Some selectFileElement \<Rightarrow>
     (case selectedOptions selectFileElement of
        [] \<Rightarrow> (Throw TypeError, w)
      | selectedOption # _ \<Rightarrow>
     (case (if option_value selectedOption = ''load-custom'' then filePickerElement w else None) of
        Some picker \<Rightarrow>
          let w1 = emit (Click picker) w;
              oldSelectedIndex = selectedIndex selectFileElement;
              newOption = \<lparr>option_id = ''pf-custom-option-placeholder'',
                           value_attribute = None, option_text = ''Custom''\<rparr>;
              sel1 = insertBefore newOption (nat oldSelectedIndex) selectFileElement;
              sel2 = set_selectedIndex oldSelectedIndex sel1
          in (Normal, w1\<lparr>doc := put_select tgt sel2 (doc w1)\<rparr>)
      | None \<Rightarrow>
          let w1 = (case option_index ''pf-custom-option-placeholder'' (options selectFileElement) of
                      None \<Rightarrow> w
                    | Some placeholder \<Rightarrow>
                        w\<lparr>doc := put_select tgt (removeChild placeholder selectFileElement) (doc w)\<rparr>)
          in (Normal, fetchFile sub (option_value selectedOption) w1))))"

text \<open>The two listeners of lines 26 to 31.\<close>

definition settings_click :: "(string list \<Rightarrow> string list) \<Rightarrow> 'v world \<Rightarrow> completion \<times> 'v world" where
  "settings_click f w =
     (case settingsCard w of
        None \<Rightarrow> (Throw TypeError, w)
      | Some panel \<Rightarrow> (Normal, w\<lparr>doc := update_classList panel f (doc w)\<rparr>))"

text \<open>
  Lines 49 to 54: the loader is created and started, \<^verbatim>\<open>Promise.all\<close> subscribes to its
  two promises, and \<^verbatim>\<open>this.view\<close> is the promise that \<^verbatim>\<open>then\<close> derives from it.
\<close>

definition load_shaders :: "element option \<Rightarrow> 'v world \<Rightarrow> 'v world" where
  "load_shaders cv w =
     (emit ShaderLoaderLoad w)
       \<lparr>shader_loader := Some \<lparr>common = Pending, shaders = Pending, all_values = (None, None),
                                all_settled = False, all_canvas = cv\<rparr>,
        view := Some (ViewPending [])\<rparr>"

text \<open>
  Lines 19 to 59. The local \<^verbatim>\<open>canvas\<close> is \<open>cv\<close>. Calling \<^verbatim>\<open>addEventListener\<close> on
  \<^verbatim>\<open>null\<close> is a type error.
\<close>

definition start :: "'v world \<Rightarrow> completion \<times> 'v world" where
  "start w =
     (let cv = getElementById (doc w) ''pf-canvas'';
          w1 = w\<lparr>settingsCard := getElementById (doc w) ''pf-settings''\<rparr>;
          w2 = w1\<lparr>settingsButton := getElementById (doc w1) ''pf-settings-button''\<rparr>;
          w3 = w2\<lparr>settingsCloseButton := getElementById (doc w2) ''pf-settings-close-button''\<rparr>
      in
      (case settingsButton w3 of
         None \<Rightarrow> (Throw TypeError, w3)
       | Some button \<Rightarrow>
      let w4 = addEventListener (Element button) ''click'' ToggleSettings w3 in
      (case settingsCloseButton w4 of
         None \<Rightarrow> (Throw TypeError, w4)
       | Some closeButton \<Rightarrow>
      let w5 = addEventListener (Element closeButton) ''click'' HideSettings w4;
          w6 = w5\<lparr>filePickerElement := getElementById (doc w5) ''pf-file-select''\<rparr>;
          w7 = (case filePickerElement w6 of
                  None \<Rightarrow> w6
                | Some picker \<Rightarrow> addEventListener (Element picker) ''change'' LoadFile w6);
          w8 = (case getElementById (doc w7) ''pf-select-file'' of
                  None \<Rightarrow> w7
                | Some selectFileElement \<Rightarrow>
                    addEventListener (Element selectFileElement) ''click'' FileSelectionChanged w7);
          w9 = load_shaders cv w8;
          w10 = w9\<lparr>aaLevelSelect := getElementById (doc w9) ''pf-aa-level-select''\<rparr>
      in
      (case aaLevelSelect w10 of
         None \<Rightarrow> (Throw TypeError, w10)
       | Some sel \<Rightarrow>
           updateAALevel (addEventListener (Element sel) ''change'' UpdateAALevel w10)))))"

section \<open>Callbacks, microtasks and events\<close>

text \<open>
  Settling \<^verbatim>\<open>this.view\<close>: a fulfilled promise queues the stored callbacks in the order
  of their registration, a rejected one drops them. A settled promise stays as it is.
\<close>

definition settle_view :: "error + 'v \<Rightarrow> 'v world \<Rightarrow> 'v world" where
  "settle_view r w =
     (case view w of
        Some (ViewPending callbacks) \<Rightarrow>
          (case r of
             Inr v \<Rightarrow>
               enqueue (map (\<lambda>(aaType, aaLevel). AACallback v aaType aaLevel) callbacks)
                 (w\<lparr>view := Some (ViewFulfilled v)\<rparr>)
           | Inl e \<Rightarrow> w\<lparr>view := Some (ViewRejected e)\<rparr>)
      | _ \<Rightarrow> w)"

text \<open>
  \<^verbatim>\<open>Promise.all\<close>: a fulfilled element stores its value, and the last one fulfils the
  promise, which queues the callback of line 52 with both values; the first rejected
  element rejects it, which passes the rejection on to \<^verbatim>\<open>this.view\<close>.
\<close>

definition all_resolve ::
  "(string option \<times> shader_sources option \<Rightarrow> string option \<times> shader_sources option) \<Rightarrow>
   'v world \<Rightarrow> 'v world" where
  "all_resolve f w =
     (case shader_loader w of
        None \<Rightarrow> w
      | Some s \<Rightarrow>
          let s1 = s\<lparr>all_values := f (all_values s)\<rparr> in
          (case all_values s1 of
             (Some c, Some m) \<Rightarrow>
               if all_settled s1 then w\<lparr>shader_loader := Some s1\<rparr>
               else enqueue [ViewCallback (all_canvas s1) c m]
                      (w\<lparr>shader_loader := Some (s1\<lparr>all_settled := True\<rparr>)\<rparr>)
           | _ \<Rightarrow> w\<lparr>shader_loader := Some s1\<rparr>))"

definition all_reject :: "error \<Rightarrow> 'v world \<Rightarrow> 'v world" where
  "all_reject e w =
     (case shader_loader w of
        None \<Rightarrow> w
      | Some s \<Rightarrow>
          if all_settled s then w
          else enqueue [ViewReject e] (w\<lparr>shader_loader := Some (s\<lparr>all_settled := True\<rparr>)\<rparr>))"

text \<open>
  One microtask. \<open>ViewCallback\<close> is the callback of lines 52 to 54, \<open>AACallback\<close> that of
  line 70, \<open>ResponseCallback\<close> that of line 111 and \<open>DataCallback\<close> that of lines 112
  to 115.
\<close>

fun run_job :: "'v implementation \<Rightarrow> 'v job \<Rightarrow> 'v world \<Rightarrow> 'v world" where
  "run_job sub (AllResolveCommon c) w = all_resolve (\<lambda>(_, m). (Some c, m)) w"
| "run_job sub (AllResolveShaders m) w = all_resolve (\<lambda>(c, _). (c, Some m)) w"
| "run_job sub (AllReject e) w = all_reject e w"
| "run_job sub (ViewCallback cv c m) w =
     settle_view (createView sub cv c m) (emit (CreateView cv c m) w)"
| "run_job sub (ViewReject e) w = settle_view (Inl e) w"
| "run_job sub (AACallback v aaType aaLevel) w =
     emit (SetAntialiasingOptions v aaType aaLevel) w"
| "run_job sub (ResponseCallback i r) w =
     emit (ResponseArrayBuffer i r) (w\<lparr>requests := (requests w)[i := AwaitingBody]\<rparr>)"
| "run_job sub (DataCallback d) w = fileLoaded (w\<lparr>fileData := ArrayBuffer d\<rparr>)"

text \<open>
  The microtask queue is run until it is empty. It does get empty: a job of
  \<^verbatim>\<open>Promise.all\<close> queues at most the callback of line 52, and that one queues the
  callbacks stored in \<^verbatim>\<open>this.view\<close> and leaves none stored.
\<close>

definition pending_callbacks :: "'v world \<Rightarrow> nat" where
  "pending_callbacks w = (case view w of Some (ViewPending callbacks) \<Rightarrow> length callbacks | _ \<Rightarrow> 0)"

fun job_weight :: "nat \<Rightarrow> 'v job \<Rightarrow> nat" where
  "job_weight n (AllResolveCommon c) = n + 3"
| "job_weight n (AllResolveShaders m) = n + 3"
| "job_weight n (AllReject e) = n + 3"
| "job_weight n (ViewCallback cv c m) = n + 2"
| "job_weight n (ViewReject e) = n + 2"
| "job_weight n (AACallback v aaType aaLevel) = 1"
| "job_weight n (ResponseCallback i r) = 1"
| "job_weight n (DataCallback d) = 1"

definition queue_weight :: "'v world \<Rightarrow> nat" where
  "queue_weight w = sum_list (map (job_weight (pending_callbacks w)) (microtasks w))"

function drain :: "'v implementation \<Rightarrow> 'v world \<Rightarrow> 'v world" where
  "drain sub w =
     (case microtasks w of
        [] \<Rightarrow> w
      | j # js \<Rightarrow> drain sub (run_job sub j (w\<lparr>microtasks := js\<rparr>)))"
  by pat_completeness auto
termination
proof (relation "measure (\<lambda>(sub, w). queue_weight w)")
  show "wf (measure (\<lambda>(sub, w). queue_weight w))" by simp
next
  fix sub :: "'v implementation" and w :: "'v world" and j js
  assume q: "microtasks w = j # js"
  have mono: "sum_list (map (job_weight 0) xs) \<le> sum_list (map (job_weight n) xs)"
    for n and xs :: "'v job list"
  proof (induction xs)
    case Nil
    show ?case by simp
  next
    case (Cons x xs)
    have "job_weight 0 x \<le> job_weight n x" by (cases x) simp_all
    with Cons show ?case by simp
  qed
  have callbacks:
    "sum_list (map (job_weight n \<circ> (\<lambda>(aaType, aaLevel). AACallback v aaType aaLevel)) cs) = length cs"
    for n and v :: 'v and cs
    by (induction cs) (simp_all split: prod.splits)
  have settled:
    "sum_list (map (job_weight 0) js) + k < Suc (Suc (k + sum_list (map (job_weight n) js)))"
    for k n
    using mono [of js n] by simp
  have settled0:
    "sum_list (map (job_weight 0) js) < Suc (Suc (k + sum_list (map (job_weight n) js)))"
    for k n
    using mono [of js n] by simp
  have "queue_weight (run_job sub j (w\<lparr>microtasks := js\<rparr>)) < queue_weight w"
  proof (cases j)
    case (AllResolveCommon c)
    then show ?thesis using q
      by (simp add: queue_weight_def pending_callbacks_def all_resolve_def enqueue_def Let_def
               split: option.splits prod.splits)
  next
    case (AllResolveShaders m)
    then show ?thesis using q
      by (simp add: queue_weight_def pending_callbacks_def all_resolve_def enqueue_def Let_def
               split: option.splits prod.splits)
  next
    case (AllReject e)
    then show ?thesis using q
      by (simp add: queue_weight_def pending_callbacks_def all_reject_def enqueue_def
               split: option.splits)
  next
    case (ViewCallback cv c m)
    then show ?thesis using q
      by (simp add: queue_weight_def pending_callbacks_def settle_view_def enqueue_def
                  emit_def callbacks settled settled0
               split: option.splits view_promise.splits sum.splits)
  next
    case (ViewReject e)
    then show ?thesis using q
      by (simp add: queue_weight_def pending_callbacks_def settle_view_def enqueue_def settled0
               split: option.splits view_promise.splits)
  next
    case (AACallback v aaType aaLevel)
    then show ?thesis using q by (simp add: queue_weight_def pending_callbacks_def emit_def)
  next
    case (ResponseCallback i r)
    then show ?thesis using q by (simp add: queue_weight_def pending_callbacks_def emit_def)
  next
    case (DataCallback d)
    then show ?thesis using q
      by (simp add: queue_weight_def pending_callbacks_def emit_def fileLoaded_def)
  qed
  then show "((sub, run_job sub j (w\<lparr>microtasks := js\<rparr>)), (sub, w)) \<in> measure (\<lambda>(sub, w). queue_weight w)"
    by simp
qed

declare drain.simps [simp del]

text \<open>
  What the environment does to a started controller: the shader loader and the network
  settle their promises, a file reader ends, an event fires at an element, the user
  changes the selection of a selector or the files of the file input, the subclass
  calls \<^verbatim>\<open>loadInitialFile\<close>. Settling a promise queues the callbacks that wait on it; an
  event that the state does not allow changes nothing.
\<close>

datatype event =
    CommonSettles "error + string"
  | ShadersSettle "error + shader_sources"
  | ResponseArrives nat "error + nat"
  | BodyArrives nat "error + bytes"
  | ReadEnds nat bool
  | Fires element string
  | UserSelects element int
  | UserChooses "picked_file list"
  | LoadsInitialFile

definition run_listener ::
  "'v implementation \<Rightarrow> listener \<Rightarrow> target \<Rightarrow> 'v world \<Rightarrow> completion \<times> 'v world" where
  "run_listener sub l t w =
     (case l of
        ToggleSettings \<Rightarrow> settings_click (toggle_class ''pf-invisible'') w
      | HideSettings \<Rightarrow> settings_click (add_class ''pf-invisible'') w
      | LoadFile \<Rightarrow> (case t of Element e \<Rightarrow> loadFile e w | Reader r \<Rightarrow> (Throw TypeError, w))
      | FileSelectionChanged \<Rightarrow>
          (case t of Element e \<Rightarrow> fileSelectionChanged sub e w | Reader r \<Rightarrow> (Throw TypeError, w))
      | UpdateAALevel \<Rightarrow> updateAALevel w
      | LoadEnd r \<Rightarrow> (Normal, loadend r w))"

text \<open>
  An event of type \<open>ty\<close> at \<open>t\<close> runs the listeners registered for it, in the order of
  their registration; a listener that throws does not stop the others.
\<close>

definition dispatch :: "'v implementation \<Rightarrow> target \<Rightarrow> string \<Rightarrow> 'v world \<Rightarrow> 'v world" where
  "dispatch sub t ty w =
     foldl (\<lambda>w' l. snd (run_listener sub l t w')) w
       (map (\<lambda>(t', ty', l). l) (filter (\<lambda>(t', ty', l). t' = t \<and> ty' = ty) (listeners w)))"

definition settle_common :: "error + string \<Rightarrow> 'v world \<Rightarrow> 'v world" where
  "settle_common r w =
     (case shader_loader w of
        None \<Rightarrow> w
      | Some s \<Rightarrow>
          (case common s of
             Pending \<Rightarrow>
               (case r of
                  Inl e \<Rightarrow> enqueue [AllReject e] (w\<lparr>shader_loader := Some (s\<lparr>common := Rejected e\<rparr>)\<rparr>)
                | Inr c \<Rightarrow>
                    enqueue [AllResolveCommon c] (w\<lparr>shader_loader := Some (s\<lparr>common := Fulfilled c\<rparr>)\<rparr>))
           | _ \<Rightarrow> w))"

definition settle_shaders :: "error + shader_sources \<Rightarrow> 'v world \<Rightarrow> 'v world" where
  "settle_shaders r w =
     (case shader_loader w of
        None \<Rightarrow> w
      | Some s \<Rightarrow>
          (case shaders s of
             Pending \<Rightarrow>
               (case r of
                  Inl e \<Rightarrow> enqueue [AllReject e] (w\<lparr>shader_loader := Some (s\<lparr>shaders := Rejected e\<rparr>)\<rparr>)
                | Inr m \<Rightarrow>
                    enqueue [AllResolveShaders m] (w\<lparr>shader_loader := Some (s\<lparr>shaders := Fulfilled m\<rparr>)\<rparr>))
           | _ \<Rightarrow> w))"

definition request_stage :: "'v world \<Rightarrow> nat \<Rightarrow> request option" where
  "request_stage w i = (if i < length (requests w) then Some (requests w ! i) else None)"

fun handle :: "'v implementation \<Rightarrow> event \<Rightarrow> 'v world \<Rightarrow> 'v world" where
  "handle sub (CommonSettles r) w = settle_common r w"
| "handle sub (ShadersSettle r) w = settle_shaders r w"
| "handle sub (ResponseArrives i r) w =
     (if request_stage w i = Some AwaitingResponse
      then (case r of
              Inl e \<Rightarrow> w\<lparr>requests := (requests w)[i := Finished]\<rparr>
            | Inr response \<Rightarrow>
                enqueue [ResponseCallback i response] (w\<lparr>requests := (requests w)[i := ResponseReceived]\<rparr>))
      else w)"
| "handle sub (BodyArrives i r) w =
     (if request_stage w i = Some AwaitingBody
      then (case r of
              Inl e \<Rightarrow> w\<lparr>requests := (requests w)[i := Finished]\<rparr>
            | Inr d \<Rightarrow> enqueue [DataCallback d] (w\<lparr>requests := (requests w)[i := Finished]\<rparr>))
      else w)"
| "handle sub (ReadEnds r ok) w =
     (if r < length (readers w)
      then (case readers w ! r of
              Loading f \<Rightarrow>
                dispatch sub (Reader r) ''loadend''
                  (w\<lparr>readers := (readers w)[r := Done (if ok then ArrayBuffer (file_bytes f) else Null)]\<rparr>)
            | _ \<Rightarrow> w)
      else w)"
| "handle sub (Fires e ty) w =
     (if element_present (doc w) e then dispatch sub (Element e) ty w else w)"
| "handle sub (UserSelects e i) w =
     (case the_select (doc w) e of
        None \<Rightarrow> w
      | Some sel \<Rightarrow> w\<lparr>doc := put_select e (set_selectedIndex i sel) (doc w)\<rparr>)"
| "handle sub (UserChooses fs) w =
     (case pf_file_select (doc w) of
        Some (Some old) \<Rightarrow> w\<lparr>doc := (doc w)\<lparr>pf_file_select := Some (Some fs)\<rparr>\<rparr>
      | _ \<Rightarrow> w)"
| "handle sub LoadsInitialFile w = loadInitialFile sub w"

text \<open>Each event is one task of the event loop: it is followed by the microtasks.\<close>

definition step :: "'v implementation \<Rightarrow> event \<Rightarrow> 'v world \<Rightarrow> 'v world" where
  "step sub ev w = drain sub (handle sub ev w)"

fun run :: "'v implementation \<Rightarrow> event list \<Rightarrow> 'v world \<Rightarrow> 'v world" where
  "run sub [] w = w"
| "run sub (ev # evs) w = run sub evs (step sub ev w)"

text \<open>The page calls \<^verbatim>\<open>start()\<close> once, on a fresh controller.\<close>

definition started :: "'v implementation \<Rightarrow> document \<Rightarrow> 'v world" where
  "started sub d = drain sub (snd (start (initial_world d)))"

section \<open>What the claims speak about\<close>

text \<open>
  Every call of \<^verbatim>\<open>setAntialiasingOptions\<close> in a trace is made on the view that an earlier
  call of \<^verbatim>\<open>createView\<close> in that trace returned; \<open>cur\<close> is the view constructed so far.
\<close>

fun aa_after_view :: "'v implementation \<Rightarrow> 'v option \<Rightarrow> 'v effect list \<Rightarrow> bool" where
  "aa_after_view sub cur [] = True"
| "aa_after_view sub cur (CreateView cv c m # xs) =
     aa_after_view sub (case createView sub cv c m of Inr v \<Rightarrow> Some v | Inl e \<Rightarrow> cur) xs"
| "aa_after_view sub cur (SetAntialiasingOptions v aaType aaLevel # xs) =
     (cur = Some v \<and> aa_after_view sub cur xs)"
| "aa_after_view sub cur (x # xs) = aa_after_view sub cur xs"

text \<open>The calls of \<^verbatim>\<open>setAntialiasingOptions\<close> and of \<^verbatim>\<open>createView\<close> in a trace.\<close>

fun aa_calls :: "'v effect list \<Rightarrow> ('v \<times> string \<times> number) list" where
  "aa_calls [] = []"
| "aa_calls (SetAntialiasingOptions v aaType aaLevel # xs) = (v, aaType, aaLevel) # aa_calls xs"
| "aa_calls (x # xs) = aa_calls xs"

fun create_calls :: "'v effect list \<Rightarrow> (element option \<times> string \<times> shader_sources) list" where
  "create_calls [] = []"
| "create_calls (CreateView cv c m # xs) = (cv, c, m) # create_calls xs"
| "create_calls (x # xs) = create_calls xs"

text \<open>
  The selections that \<^verbatim>\<open>updateAALevel\<close> has parsed: the one of line 58, if \<^verbatim>\<open>start\<close> got
  through it, and one for each later change event of the selector that finds the listener
  of line 57 registered and a selection that parses.
\<close>

definition aa_listener :: "target \<times> string \<times> listener" where
  "aa_listener = (Element PfAALevelSelect, ''change'', UpdateAALevel)"

fun selected_by :: "event \<Rightarrow> 'v world \<Rightarrow> (string \<times> number) list" where
  "selected_by (Fires e ty) w =
     (if e = PfAALevelSelect \<and> ty = ''change'' \<and> element_present (doc w) e
         \<and> aa_listener \<in> set (listeners w)
      then (case aa_selection w of Inr p \<Rightarrow> [p] | Inl err \<Rightarrow> [])
      else [])"
| "selected_by ev w = []"

fun later_selections :: "'v implementation \<Rightarrow> event list \<Rightarrow> 'v world \<Rightarrow> (string \<times> number) list" where
  "later_selections sub [] w = []"
| "later_selections sub (ev # evs) w = selected_by ev w @ later_selections sub evs (step sub ev w)"

definition first_selection :: "'v world \<Rightarrow> (string \<times> number) list" where
  "first_selection w =
     (if aa_listener \<in> set (listeners w)
      then (case aa_selection w of Inr p \<Rightarrow> [p] | Inl err \<Rightarrow> [])
      else [])"

definition all_selections :: "'v implementation \<Rightarrow> document \<Rightarrow> event list \<Rightarrow> (string \<times> number) list" where
  "all_selections sub d evs =
     first_selection (started sub d) @ later_selections sub evs (started sub d)"

subsection \<open>A page to run the controller on\<close>

definition demo_aa_select :: "string \<Rightarrow> select_element" where
  "demo_aa_select v =
     \<lparr>options = [\<lparr>option_id = [], value_attribute = Some ''none'', option_text = ''None''\<rparr>,
                 \<lparr>option_id = [], value_attribute = Some v, option_text = ''Chosen''\<rparr>],
      selectedIndex = 1\<rparr>"

definition demo_file_select :: select_element where
  "demo_file_select =
     \<lparr>options = [\<lparr>option_id = [], value_attribute = Some ''tiger.svg'', option_text = ''Tiger''\<rparr>,
                 \<lparr>option_id = [], value_attribute = Some ''load-custom'', option_text = ''Custom...''\<rparr>],
      selectedIndex = 1\<rparr>"

text \<open>
  A page with every element, nothing chosen in the file input, and the value \<open>v\<close> in the
  selected option of the antialiasing selector.
\<close>

definition demo_document :: "string \<Rightarrow> document" where
  "demo_document v =
     \<lparr>pf_canvas = True, pf_settings = Some [], pf_settings_button = True,
      pf_settings_close_button = True, pf_file_select = Some (Some []),
      pf_select_file = Some demo_file_select,
      pf_aa_level_select = Some (demo_aa_select v)\<rparr>"

text \<open>An implementation whose views are numbered by the length of the common shader source.\<close>

definition demo_implementation :: "nat implementation" where
  "demo_implementation =
     \<lparr>builtinFileURI = ''/svg'', defaultFile = ''tiger.svg'',
      createView = (\<lambda>cv c m. Inr (length c))\<rparr>"

section \<open>The state of a started controller between two tasks\<close>

text \<open>
  The calls on the view and of \<^verbatim>\<open>createView\<close> in a trace, in order.
\<close>

fun view_calls :: "'v effect list \<Rightarrow> 'v effect list" where
  "view_calls [] = []"
| "view_calls (CreateView cv c m # xs) = CreateView cv c m # view_calls xs"
| "view_calls (SetAntialiasingOptions v aaType aaLevel # xs) =
     SetAntialiasingOptions v aaType aaLevel # view_calls xs"
| "view_calls (x # xs) = view_calls xs"

text \<open>
  The listener of line 57 is the only one at the change event of the antialiasing
  selector, it is nowhere else, and it is registered at most once.
\<close>

definition listeners_ok :: "(target \<times> string \<times> listener) list \<Rightarrow> bool" where
  "listeners_ok ls =
     ((\<forall>(t, ty, l) \<in> set ls. (l = UpdateAALevel) = (t = Element PfAALevelSelect \<and> ty = ''change''))
      \<and> length (filter (\<lambda>x. x = aa_listener) ls) \<le> 1)"

text \<open>
  A change of the world that leaves the promises, the microtask queue and the calls on
  the view alone, and adds no listener for the antialiasing selector.
\<close>

definition quiet :: "'v world \<Rightarrow> 'v world \<Rightarrow> bool" where
  "quiet w w' =
     (view w' = view w \<and> shader_loader w' = shader_loader w \<and> microtasks w' = microtasks w
      \<and> view_calls (trace w') = view_calls (trace w)
      \<and> (\<exists>extra. listeners w' = listeners w @ extra
            \<and> (\<forall>(t, ty, l) \<in> set extra. l \<noteq> UpdateAALevel \<and> t \<noteq> Element PfAALevelSelect)))"

text \<open>
  How the promises of lines 49 to 54, the calls on the view and the selections \<open>h\<close>
  parsed so far fit together once the microtasks have run: while a shader resource is
  outstanding and none has failed, the view promise is pending and holds the callbacks
  for \<open>h\<close>; once both have arrived, \<^verbatim>\<open>createView\<close> has been called with them and the
  canvas \<open>cv\<close>, and the view promise is settled with its outcome; a view that exists has
  received exactly the selections \<open>h\<close>.
\<close>

definition promises_ok ::
  "'v implementation \<Rightarrow> element option \<Rightarrow> (string \<times> number) list \<Rightarrow> shader_loading option \<Rightarrow>
   'v view_promise option \<Rightarrow> 'v effect list \<Rightarrow> bool \<Rightarrow> bool" where
  "promises_ok sub cv h loader p calls registered =
     (case loader of
        None \<Rightarrow> p = None \<and> calls = [] \<and> \<not> registered \<and> h = []
      | Some s \<Rightarrow>
          all_canvas s = cv \<and>
          (case (common s, shaders s) of
             (Fulfilled c, Fulfilled m) \<Rightarrow>
               all_settled s \<and>
               (case createView sub cv c m of
                  Inr v \<Rightarrow>
                    p = Some (ViewFulfilled v) \<and>
                    calls = CreateView cv c m # map (\<lambda>(t, l). SetAntialiasingOptions v t l) h
                | Inl e \<Rightarrow> p = Some (ViewRejected e) \<and> calls = [CreateView cv c m])
           | (Rejected e, b) \<Rightarrow> all_settled s \<and> (\<exists>e'. p = Some (ViewRejected e')) \<and> calls = []
           | (a, Rejected e) \<Rightarrow> all_settled s \<and> (\<exists>e'. p = Some (ViewRejected e')) \<and> calls = []
           | (Pending, Pending) \<Rightarrow>
               \<not> all_settled s \<and> all_values s = (None, None) \<and> p = Some (ViewPending h) \<and> calls = []
           | (Fulfilled c, Pending) \<Rightarrow>
               \<not> all_settled s \<and> all_values s = (Some c, None) \<and> p = Some (ViewPending h) \<and> calls = []
           | (Pending, Fulfilled m) \<Rightarrow>
               \<not> all_settled s \<and> all_values s = (None, Some m) \<and> p = Some (ViewPending h) \<and> calls = []))"

definition consistent :: "'v implementation \<Rightarrow> element option \<Rightarrow> (string \<times> number) list \<Rightarrow> 'v world \<Rightarrow> bool" where
  "consistent sub cv h w =
     (microtasks w = [] \<and> listeners_ok (listeners w) \<and>
      promises_ok sub cv h (shader_loader w) (view w) (view_calls (trace w))
        (aa_listener \<in> set (listeners w)))"

text \<open>
  The world in which line 58 calls \<^verbatim>\<open>updateAALevel\<close>, on a page that has the two settings
  buttons and the antialiasing selector.
\<close>

definition world_at_line_58 :: "document \<Rightarrow> 'v world" where
  "world_at_line_58 d =
     (initial_world d)
       \<lparr>settingsCard := getElementById d ''pf-settings'',
        settingsButton := Some PfSettingsButton,
        settingsCloseButton := Some PfSettingsCloseButton,
        filePickerElement := getElementById d ''pf-file-select'',
        aaLevelSelect := Some PfAALevelSelect,
        listeners :=
          [(Element PfSettingsButton, ''click'', ToggleSettings),
           (Element PfSettingsCloseButton, ''click'', HideSettings)] @
          (if pf_file_select d \<noteq> None then [(Element PfFileSelect, ''change'', LoadFile)] else []) @
          (if pf_select_file d \<noteq> None
           then [(Element PfSelectFile, ''click'', FileSelectionChanged)] else []) @
          [aa_listener],
        shader_loader :=
          Some \<lparr>common = Pending, shaders = Pending, all_values = (None, None),
                all_settled = False, all_canvas = getElementById d ''pf-canvas''\<rparr>,
        view := Some (ViewPending []),
        trace := [ShaderLoaderLoad]\<rparr>"

section \<open>Lemmas\<close>

lemma drain_Nil: "microtasks w = [] \<Longrightarrow> drain sub w = w"
  by (simp add: drain.simps)

lemma drain_Cons: "microtasks w = j # js \<Longrightarrow> drain sub w = drain sub (run_job sub j (w\<lparr>microtasks := js\<rparr>))"
  by (subst drain.simps) simp

lemma match_name_Some:
  "match_name k s = Some (g1, g2) \<Longrightarrow> \<exists>j. 0 < j \<and> j \<le> k \<and> g1 = take j s \<and> match_level (drop j s) = Some g2"
proof (induction k)
  case 0
  then show ?case by simp
next
  case (Suc k)
  show ?case
  proof (cases "match_level (drop (Suc k) s)")
    case None
    with Suc.prems have "match_name k s = Some (g1, g2)" by simp
    from Suc.IH [OF this] obtain j where
      "0 < j" "j \<le> k" "g1 = take j s" "match_level (drop j s) = Some g2" by blast
    moreover from this have "j \<le> Suc k" by simp
    ultimately show ?thesis by blast
  next
    case (Some g)
    with Suc.prems have "g1 = take (Suc k) s" "g2 = g" by simp_all
    with Some show ?thesis by blast
  qed
qed

lemma match_level_Some:
  "match_level r = Some (Some ds) \<Longrightarrow> r = CHR ''-'' # ds \<and> ds \<noteq> [] \<and> list_all is_digit ds"
  by (auto simp: match_level_def split: list.splits if_splits)

lemma exec_level:
  assumes "aa_regexp_exec s = Some (name, Some ds)"
  shows "s = name @ CHR ''-'' # ds" "ds \<noteq> []" "list_all is_digit ds" "name \<noteq> []" "list_all is_name_char name"
proof -
  from assms obtain j where j: "0 < j" "j \<le> length (takeWhile is_name_char s)" "name = take j s"
      "match_level (drop j s) = Some (Some ds)"
    unfolding aa_regexp_exec_def using match_name_Some by blast
  from match_level_Some [OF j(4)] have d: "drop j s = CHR ''-'' # ds" "ds \<noteq> []" "list_all is_digit ds" by simp_all
  show "ds \<noteq> []" "list_all is_digit ds" by fact+
  have "s = take j s @ drop j s" by simp
  with d j show "s = name @ CHR ''-'' # ds" by simp
  have "length (takeWhile is_name_char s) \<le> length s" by (rule length_takeWhile_le)
  with j show "name \<noteq> []" by auto
  have "take j s = take j (takeWhile is_name_char s)"
    using j(2) by (metis append_eq_conv_conj takeWhile_dropWhile_id min.absorb1 take_take)
  then have "set name \<subseteq> set (takeWhile is_name_char s)" using j(3) by (metis set_take_subset)
  then show "list_all is_name_char name" by (auto simp: list_all_iff dest: set_takeWhileD)
qed

lemma digit_facts:
  assumes "is_digit c"
  shows "\<not> is_white c" "c \<noteq> CHR ''-''" "c \<noteq> CHR ''+''" "c \<noteq> CHR ''x''" "c \<noteq> CHR ''X''" "is_radix_digit 10 c"
  using assms by (auto simp: is_digit_def is_white_def is_radix_digit_def digit_of_def)

lemma parseInt_digits:
  assumes "ds \<noteq> []" "list_all is_digit ds"
  shows "parseInt (Some ds) = to_double (digits_value 10 ds)"
proof -
  from assms obtain c cs where ds: "ds = c # cs" by (cases ds) auto
  with assms have c: "is_digit c" and cs: "list_all is_digit cs" by simp_all
  have w: "dropWhile is_white ds = ds" using ds digit_facts(1) [OF c] by simp
  have t: "takeWhile (is_radix_digit 10) ds = ds"
    using assms(2) by (induction ds) (simp_all add: digit_facts)
  have h: "take 2 ds \<noteq> ''0x''" "take 2 ds \<noteq> ''0X''"
  proof -
    show "take 2 ds \<noteq> ''0x''"
    proof (cases cs)
      case Nil then show ?thesis using ds by simp
    next
      case (Cons b bs)
      with cs have "is_digit b" by simp
      from digit_facts(4) [OF this] show ?thesis using ds Cons by simp
    qed
    show "take 2 ds \<noteq> ''0X''"
    proof (cases cs)
      case Nil then show ?thesis using ds by simp
    next
      case (Cons b bs)
      with cs have "is_digit b" by simp
      from digit_facts(5) [OF this] show ?thesis using ds Cons by simp
    qed
  qed
  have hd: "hd ds \<noteq> CHR ''-''" "hd ds \<noteq> CHR ''+''" using ds digit_facts [OF c] by simp_all
  show ?thesis
    using assms(1) by (simp add: parseInt_def parseInt_string_def Let_def w t h hd)
qed

lemma to_double_small: "n < 2 ^ 53 \<Longrightarrow> to_double n = Finite n"
  by (simp add: to_double_def)


text \<open>
  The matcher accepts the strings of the pattern and no others: a non-empty name of
  lower-case letters and hyphens, alone or followed by a hyphen and a non-empty run of
  digits (\<open>exec_level\<close> and \<open>exec_no_level\<close> are the converse).
\<close>

lemma name_char_not_digit: "is_digit c \<Longrightarrow> \<not> is_name_char c"
  by (auto simp: is_digit_def is_name_char_def)

lemma takeWhile_all: "list_all P xs \<Longrightarrow> takeWhile P (xs @ ys) = xs @ takeWhile P ys"
  by (induction xs) simp_all

lemma exec_name:
  assumes "name \<noteq> []" and "list_all is_name_char name"
  shows "aa_regexp_exec name = Some (name, None)"
proof -
  have tw: "takeWhile is_name_char name = name"
    using assms(2) takeWhile_all [of is_name_char name "[]"] by simp
  obtain k where k: "length name = Suc k" using assms(1) by (cases name) auto
  have "match_name (Suc k) name = Some (name, None)"
    using k by (simp add: match_level_def)
  then show ?thesis unfolding aa_regexp_exec_def tw k .
qed

lemma exec_name_level:
  assumes "name \<noteq> []" and "list_all is_name_char name" and "ds \<noteq> []" and "list_all is_digit ds"
  shows "aa_regexp_exec (name @ CHR ''-'' # ds) = Some (name, Some ds)"
proof -
  let ?s = "name @ CHR ''-'' # ds"
  obtain c cs where ds: "ds = c # cs" using assms(3) by (cases ds) auto
  then have c: "is_digit c" using assms(4) by simp
  then have nc: "\<not> is_name_char c" and cm: "c \<noteq> CHR ''-''"
    by (simp_all add: name_char_not_digit digit_facts)
  have h: "is_name_char CHR ''-''" by (simp add: is_name_char_def)
  have "takeWhile is_name_char ?s = name @ ''-''"
    using assms(2) ds nc h by (simp add: takeWhile_all)
  then have len: "length (takeWhile is_name_char ?s) = Suc (length name)"
    by simp
  obtain k where k: "length name = Suc k" using assms(1) by (cases name) auto
  have 1: "match_level (drop (Suc (Suc k)) ?s) = None"
    using ds cm k by (simp add: match_level_def)
  have 2: "match_level (drop (Suc k) ?s) = Some (Some ds)"
    using assms(3,4) k by (simp add: match_level_def)
  have 3: "take (Suc k) ?s = name" using k by simp
  have "match_name (Suc (Suc k)) ?s = match_name (Suc k) ?s"
    using 1 by (simp del: drop_Suc_Cons)
  also have "\<dots> = Some (name, Some ds)"
    using 2 3 by (simp del: drop_Suc_Cons take_Suc_Cons)
  finally show ?thesis unfolding aa_regexp_exec_def len k .
qed

lemma exec_no_level:
  assumes "aa_regexp_exec s = Some (name, None)"
  shows "s = name" and "name \<noteq> []" and "list_all is_name_char name"
proof -
  from assms obtain j where j: "0 < j" "j \<le> length (takeWhile is_name_char s)" "name = take j s"
      "match_level (drop j s) = Some None"
    unfolding aa_regexp_exec_def using match_name_Some by blast
  from j(4) have d: "drop j s = []"
    by (auto simp: match_level_def split: list.splits if_splits)
  then have le: "length s \<le> j" by simp
  then show n: "s = name" using j(3) by simp
  have "length (takeWhile is_name_char s) \<le> length s" by (rule length_takeWhile_le)
  with j(2) le have e: "length (takeWhile is_name_char s) = length s" by simp
  have "takeWhile is_name_char s = take (length (takeWhile is_name_char s)) s"
    by (rule takeWhile_eq_take)
  then have "takeWhile is_name_char s = s" using e by simp
  then have "\<forall>x \<in> set s. is_name_char x" by (metis set_takeWhileD)
  then show "list_all is_name_char name" using n by (simp add: list_all_iff)
  from j(1) e j(2) show "name \<noteq> []" using n by auto
qed

lemma parseInt_undefined: "parseInt None = NaN"
  by code_simp

lemma drain_callbacks:
  "microtasks w = map (\<lambda>(aaType, aaLevel). AACallback v aaType aaLevel) cs \<Longrightarrow>
   drain sub w = w\<lparr>microtasks := [],
                   trace := trace w @ map (\<lambda>(aaType, aaLevel). SetAntialiasingOptions v aaType aaLevel) cs\<rparr>"
proof (induction cs arbitrary: w)
  case Nil
  then show ?case by (simp add: drain_Nil)
next
  case (Cons c cs)
  obtain t l where c: "c = (t, l)" by (cases c)
  let ?w = "run_job sub (AACallback v t l) (w\<lparr>microtasks := map (\<lambda>(aaType, aaLevel). AACallback v aaType aaLevel) cs\<rparr>)"
  have "drain sub w = drain sub ?w"
    using Cons.prems c by (simp add: drain_Cons)
  also have "\<dots> = ?w\<lparr>microtasks := [],
                   trace := trace ?w @ map (\<lambda>(aaType, aaLevel). SetAntialiasingOptions v aaType aaLevel) cs\<rparr>"
    by (rule Cons.IH) (simp add: emit_def)
  finally show ?case using c by (simp add: emit_def)
qed

subsection \<open>The invariant is kept by every task\<close>

lemma view_calls_append: "view_calls (xs @ ys) = view_calls xs @ view_calls ys"
  by (induction xs rule: view_calls.induct) simp_all

lemma aa_after_view_calls: "aa_after_view sub cur (view_calls xs) = aa_after_view sub cur xs"
  by (induction sub cur xs rule: aa_after_view.induct) simp_all

lemma aa_calls_view_calls: "aa_calls (view_calls xs) = aa_calls xs"
  by (induction xs rule: view_calls.induct) simp_all

lemma create_calls_view_calls: "create_calls (view_calls xs) = create_calls xs"
  by (induction xs rule: view_calls.induct) simp_all

lemma view_calls_callbacks:
  "view_calls (map (\<lambda>(t, l). SetAntialiasingOptions v t l) h) = map (\<lambda>(t, l). SetAntialiasingOptions v t l) h"
  by (induction h) (simp_all split: prod.splits)

lemma aa_after_view_callbacks:
  "aa_after_view sub (Some v) (map (\<lambda>(t, l). SetAntialiasingOptions v t l) h)"
  by (induction h) (simp_all split: prod.splits)

lemma aa_calls_callbacks:
  "aa_calls (map (\<lambda>(t, l). SetAntialiasingOptions v t l) h) = map (\<lambda>(t, l). (v, t, l)) h"
  by (induction h) (simp_all split: prod.splits)

lemma create_calls_callbacks:
  "create_calls (map (\<lambda>(t, l). SetAntialiasingOptions v t l) h) = []"
  by (induction h) (simp_all split: prod.splits)

lemma quiet_refl: "quiet w w"
  by (simp add: quiet_def)

lemma quiet_trans: "quiet a b \<Longrightarrow> quiet b c \<Longrightarrow> quiet a c"
  unfolding quiet_def by (elim conjE exE) (rule conjI, simp, auto)

lemma listeners_ok_quiet:
  assumes "listeners_ok (listeners w)" and "quiet w w'"
  shows "listeners_ok (listeners w')"
proof -
  from assms(2) obtain extra where e: "listeners w' = listeners w @ extra"
    and n: "\<forall>(t, ty, l) \<in> set extra. l \<noteq> UpdateAALevel \<and> t \<noteq> Element PfAALevelSelect"
    unfolding quiet_def by blast
  have "filter (\<lambda>x. x = aa_listener) extra = []"
    using n by (auto simp: filter_empty_conv aa_listener_def)
  then show ?thesis
    using assms(1) e n unfolding listeners_ok_def by auto
qed

lemma aa_listener_quiet: "quiet w w' \<Longrightarrow> aa_listener \<in> set (listeners w') \<longleftrightarrow> aa_listener \<in> set (listeners w)"
  unfolding quiet_def aa_listener_def by auto

lemma consistent_quiet:
  assumes "consistent sub cv h w" and "quiet w w'"
  shows "consistent sub cv h w'"
proof -
  from assms(2) have eq: "view w' = view w" "shader_loader w' = shader_loader w"
      "microtasks w' = microtasks w" "view_calls (trace w') = view_calls (trace w)"
    by (simp_all add: quiet_def)
  have l: "listeners_ok (listeners w')"
    using assms listeners_ok_quiet [of w w'] by (simp add: consistent_def)
  have a: "aa_listener \<in> set (listeners w') \<longleftrightarrow> aa_listener \<in> set (listeners w)"
    using assms(2) by (rule aa_listener_quiet)
  show ?thesis using assms(1) unfolding consistent_def by (simp add: eq l a)
qed

lemma quiet_fetchFile: "quiet w (fetchFile sub f w)"
  by (simp add: quiet_def fetchFile_def emit_def view_calls_append)

lemma quiet_loadFile: "quiet w (snd (loadFile t w))"
  by (simp add: quiet_def loadFile_def readAsArrayBuffer_def addEventListener_def emit_def
        expectNotNull_def view_calls_append Let_def split: option.splits list.splits sum.splits)

lemma quiet_fileSelectionChanged: "quiet w (snd (fileSelectionChanged sub t w))"
  using quiet_fetchFile [of w sub]
  by (simp add: quiet_def fileSelectionChanged_def fetchFile_def emit_def view_calls_append Let_def
           split: option.splits list.splits)

lemma quiet_settings_click: "quiet w (snd (settings_click f w))"
  by (simp add: quiet_def settings_click_def split: option.splits)

lemma quiet_loadend: "quiet w (loadend r w)"
  by (simp add: quiet_def loadend_def fileLoaded_def emit_def view_calls_append)

lemma quiet_run_listener: "l \<noteq> UpdateAALevel \<Longrightarrow> quiet w (snd (run_listener sub l t w))"
  by (cases l)
     (simp_all add: run_listener_def quiet_settings_click quiet_loadFile quiet_fileSelectionChanged
        quiet_loadend quiet_refl split: target.splits)

lemma quiet_foldl:
  "\<forall>l \<in> set ls. l \<noteq> UpdateAALevel \<Longrightarrow>
   quiet w (foldl (\<lambda>w' l. snd (run_listener sub l t w')) w ls)"
proof (induction ls arbitrary: w)
  case Nil
  show ?case by (simp add: quiet_refl)
next
  case (Cons l ls)
  have "quiet w (snd (run_listener sub l t w))" using Cons.prems by (simp add: quiet_run_listener)
  moreover have "quiet (snd (run_listener sub l t w))
      (foldl (\<lambda>w' l. snd (run_listener sub l t w')) (snd (run_listener sub l t w)) ls)"
    using Cons.prems by (intro Cons.IH) simp
  ultimately show ?case by (simp add: quiet_trans)
qed

lemma dispatch_quiet:
  assumes "listeners_ok (listeners w)" and "t \<noteq> Element PfAALevelSelect \<or> ty \<noteq> ''change''"
  shows "quiet w (dispatch sub t ty w)"
  unfolding dispatch_def
  using assms by (intro quiet_foldl) (auto simp: listeners_ok_def)

lemma filter_eq_single:
  "length (filter (\<lambda>x. x = a) ls) \<le> 1 \<Longrightarrow> filter (\<lambda>x. x = a) ls = (if a \<in> set ls then [a] else [])"
proof (induction ls)
  case Nil
  show ?case by simp
next
  case (Cons x xs)
  then show ?case by (auto simp: filter_empty_conv split: if_splits)
qed

lemma dispatch_aa:
  assumes "listeners_ok (listeners w)"
  shows "dispatch sub (Element PfAALevelSelect) ''change'' w =
         (if aa_listener \<in> set (listeners w) then snd (updateAALevel w) else w)"
proof -
  have "filter (\<lambda>(t', ty', l). t' = Element PfAALevelSelect \<and> ty' = ''change'') (listeners w) =
        filter (\<lambda>x. x = aa_listener) (listeners w)"
    using assms by (intro filter_cong) (auto simp: listeners_ok_def aa_listener_def)
  also have "\<dots> = (if aa_listener \<in> set (listeners w) then [aa_listener] else [])"
    using assms by (intro filter_eq_single) (simp add: listeners_ok_def)
  finally show ?thesis by (simp add: dispatch_def aa_listener_def run_listener_def)
qed


lemma consistent_common:
  assumes "consistent sub cv h w"
  shows "consistent sub cv h (step sub (CommonSettles r) w)"
proof (cases "shader_loader w")
  case None
  then show ?thesis using assms
    by (simp add: step_def settle_common_def consistent_def drain_Nil)
next
  case (Some s)
  show ?thesis
  proof (cases "common s")
    case Pending
    show ?thesis
    proof (cases r)
      case (Inl e)
      show ?thesis using assms Some Pending Inl
        by (cases "shaders s")
           (simp_all add: step_def settle_common_def consistent_def promises_ok_def enqueue_def
              drain_Cons drain_Nil all_reject_def settle_view_def)
    next
      case (Inr c)
      show ?thesis
      proof (cases "shaders s")
        case (Fulfilled m)
        show ?thesis using assms Some Pending Inr Fulfilled
          by (cases "createView sub cv c m")
             (simp_all add: step_def settle_common_def consistent_def promises_ok_def enqueue_def
                drain_Cons drain_Nil all_resolve_def settle_view_def emit_def drain_callbacks
                view_calls_append view_calls_callbacks)
      next
        case Pending
        show ?thesis using assms Some \<open>common s = Pending\<close> Inr Pending
          by (simp add: step_def settle_common_def consistent_def promises_ok_def enqueue_def
                drain_Cons drain_Nil all_resolve_def)
      next
        case (Rejected e)
        obtain a b where "all_values s = (a, b)" by (cases "all_values s")
        then show ?thesis using assms Some \<open>common s = Pending\<close> Inr Rejected
          by (cases b)
             (simp_all add: step_def settle_common_def consistent_def promises_ok_def enqueue_def
                drain_Cons drain_Nil all_resolve_def)
      qed
    qed
  next
    case (Fulfilled c)
    then show ?thesis using assms Some
      by (simp add: step_def settle_common_def consistent_def drain_Nil)
  next
    case (Rejected e)
    then show ?thesis using assms Some
      by (simp add: step_def settle_common_def consistent_def drain_Nil)
  qed
qed

lemma consistent_shaders:
  assumes "consistent sub cv h w"
  shows "consistent sub cv h (step sub (ShadersSettle r) w)"
proof (cases "shader_loader w")
  case None
  then show ?thesis using assms
    by (simp add: step_def settle_shaders_def consistent_def drain_Nil)
next
  case (Some s)
  show ?thesis
  proof (cases "shaders s")
    case Pending
    show ?thesis
    proof (cases r)
      case (Inl e)
      show ?thesis using assms Some Pending Inl
        by (cases "common s")
           (simp_all add: step_def settle_shaders_def consistent_def promises_ok_def enqueue_def
              drain_Cons drain_Nil all_reject_def settle_view_def)
    next
      case (Inr m)
      show ?thesis
      proof (cases "common s")
        case (Fulfilled c)
        show ?thesis using assms Some Pending Inr Fulfilled
          by (cases "createView sub cv c m")
             (simp_all add: step_def settle_shaders_def consistent_def promises_ok_def enqueue_def
                drain_Cons drain_Nil all_resolve_def settle_view_def emit_def drain_callbacks
                view_calls_append view_calls_callbacks)
      next
        case Pending
        show ?thesis using assms Some \<open>shaders s = Pending\<close> Inr Pending
          by (simp add: step_def settle_shaders_def consistent_def promises_ok_def enqueue_def
                drain_Cons drain_Nil all_resolve_def)
      next
        case (Rejected e)
        obtain a b where "all_values s = (a, b)" by (cases "all_values s")
        then show ?thesis using assms Some \<open>shaders s = Pending\<close> Inr Rejected
          by (cases a)
             (simp_all add: step_def settle_shaders_def consistent_def promises_ok_def enqueue_def
                drain_Cons drain_Nil all_resolve_def)
      qed
    qed
  next
    case (Fulfilled m0)
    then show ?thesis using assms Some
      by (simp add: step_def settle_shaders_def consistent_def drain_Nil)
  next
    case (Rejected e)
    then show ?thesis using assms Some
      by (simp add: step_def settle_shaders_def consistent_def drain_Nil)
  qed
qed


lemma consistent_aa:
  assumes "consistent sub cv h w"
  shows "consistent sub cv (h @ selected_by (Fires PfAALevelSelect ''change'') w)
           (step sub (Fires PfAALevelSelect ''change'') w)"
proof (cases "element_present (doc w) PfAALevelSelect \<and> aa_listener \<in> set (listeners w)")
  case False
  then have "handle sub (Fires PfAALevelSelect ''change'') w = w"
    using assms by (auto simp: consistent_def dispatch_aa)
  then show ?thesis using assms False by (auto simp: step_def consistent_def drain_Nil)
next
  case True
  then have hd: "handle sub (Fires PfAALevelSelect ''change'') w = snd (updateAALevel w)"
    using assms by (simp add: consistent_def dispatch_aa)
  show ?thesis
  proof (cases "aa_selection w")
    case (Inl e)
    then show ?thesis using assms True hd
      by (simp add: step_def updateAALevel_def consistent_def drain_Nil)
  next
    case (Inr p)
    obtain t l where p: "p = (t, l)" by (cases p)
    from True assms obtain s where s: "shader_loader w = Some s"
      by (cases "shader_loader w") (auto simp: consistent_def promises_ok_def)
    show ?thesis
    proof (cases "view w")
      case None
      then show ?thesis using assms s
        by (auto simp: consistent_def promises_ok_def split: settled.splits sum.splits)
    next
      case (Some q)
      show ?thesis
      proof (cases q)
        case (ViewPending cs)
        then show ?thesis using assms True hd Inr p s Some
          by (auto simp: step_def updateAALevel_def consistent_def promises_ok_def view_then_def
                drain_Nil split: settled.splits sum.splits)
      next
        case (ViewFulfilled v)
        then show ?thesis using assms True hd Inr p s Some
          by (auto simp: step_def updateAALevel_def consistent_def promises_ok_def view_then_def
                enqueue_def drain_Cons drain_Nil emit_def view_calls_append
                split: settled.splits sum.splits)
      next
        case (ViewRejected e)
        then show ?thesis using assms True hd Inr p s Some
          by (auto simp: step_def updateAALevel_def consistent_def promises_ok_def view_then_def
                drain_Nil split: settled.splits sum.splits)
      qed
    qed
  qed
qed

lemma quiet_step:
  assumes "consistent sub cv h w"
    and "\<forall>r. ev \<noteq> CommonSettles r" and "\<forall>r. ev \<noteq> ShadersSettle r"
    and "ev \<noteq> Fires PfAALevelSelect ''change''"
  shows "quiet w (step sub ev w)"
proof -
  have q: "microtasks w = []" and l: "listeners_ok (listeners w)"
    using assms(1) by (simp_all add: consistent_def)
  show ?thesis
  proof (cases ev)
    case (CommonSettles r)
    then show ?thesis using assms by simp
  next
    case (ShadersSettle r)
    then show ?thesis using assms by simp
  next
    case (ResponseArrives i r)
    then show ?thesis using q
      by (cases r)
         (simp_all add: step_def enqueue_def drain_Cons drain_Nil emit_def quiet_def view_calls_append)
  next
    case (BodyArrives i r)
    then show ?thesis using q
      by (cases r)
         (simp_all add: step_def enqueue_def drain_Cons drain_Nil emit_def fileLoaded_def quiet_def
            view_calls_append)
  next
    case (ReadEnds r ok)
    show ?thesis
    proof (cases "r < length (readers w)")
      case False
      then show ?thesis using ReadEnds q by (simp add: step_def drain_Nil quiet_refl)
    next
      case True
      show ?thesis
      proof (cases "readers w ! r")
        case (Loading f)
        let ?w = "w\<lparr>readers := (readers w)[r := Done (if ok then ArrayBuffer (file_bytes f) else Null)]\<rparr>"
        have a: "quiet w ?w" by (simp add: quiet_def)
        have "quiet ?w (dispatch sub (Reader r) ''loadend'' ?w)"
          using l by (intro dispatch_quiet) simp_all
        with a have b: "quiet w (dispatch sub (Reader r) ''loadend'' ?w)" by (rule quiet_trans)
        then have "microtasks (dispatch sub (Reader r) ''loadend'' ?w) = []"
          using q by (simp add: quiet_def)
        then show ?thesis using ReadEnds True Loading b by (simp add: step_def drain_Nil)
      next
        case Empty
        then show ?thesis using ReadEnds True q by (simp add: step_def drain_Nil quiet_refl)
      next
        case (Done x)
        then show ?thesis using ReadEnds True q by (simp add: step_def drain_Nil quiet_refl)
      qed
    qed
  next
    case (Fires e ty)
    show ?thesis
    proof (cases "element_present (doc w) e")
      case False
      then show ?thesis using Fires q by (simp add: step_def drain_Nil quiet_refl)
    next
      case True
      have "Element e \<noteq> Element PfAALevelSelect \<or> ty \<noteq> ''change''"
        using assms(4) Fires by auto
      with l have b: "quiet w (dispatch sub (Element e) ty w)" by (rule dispatch_quiet)
      then have "microtasks (dispatch sub (Element e) ty w) = []" using q by (simp add: quiet_def)
      then show ?thesis using Fires True b by (simp add: step_def drain_Nil)
    qed
  next
    case (UserSelects e i)
    then show ?thesis using q
      by (simp add: step_def drain_Nil quiet_def split: option.splits)
  next
    case (UserChooses fs)
    then show ?thesis using q
      by (simp add: step_def drain_Nil quiet_def split: option.splits)
  next
    case LoadsInitialFile
    have "quiet w (loadInitialFile sub w)" by (simp add: loadInitialFile_def quiet_fetchFile)
    moreover from this have "microtasks (loadInitialFile sub w) = []" using q by (simp add: quiet_def)
    ultimately show ?thesis using LoadsInitialFile by (simp add: step_def drain_Nil)
  qed
qed

lemma selected_by_other:
  "ev \<noteq> Fires PfAALevelSelect ''change'' \<Longrightarrow> selected_by ev w = []"
  by (cases ev) auto

lemma consistent_step:
  assumes "consistent sub cv h w"
  shows "consistent sub cv (h @ selected_by ev w) (step sub ev w)"
proof -
  consider (c) r where "ev = CommonSettles r" | (s) r where "ev = ShadersSettle r"
    | (a) "ev = Fires PfAALevelSelect ''change''"
    | (q) "\<forall>r. ev \<noteq> CommonSettles r" "\<forall>r. ev \<noteq> ShadersSettle r" "ev \<noteq> Fires PfAALevelSelect ''change''"
    by blast
  then show ?thesis
  proof cases
    case c
    then show ?thesis using consistent_common [OF assms] by simp
  next
    case s
    then show ?thesis using consistent_shaders [OF assms] by simp
  next
    case a
    then show ?thesis using consistent_aa [OF assms] by simp
  next
    case q
    then show ?thesis using consistent_quiet [OF assms quiet_step [OF assms q]]
      by (simp add: selected_by_other)
  qed
qed

lemma consistent_run:
  "consistent sub cv h w \<Longrightarrow> consistent sub cv (h @ later_selections sub evs w) (run sub evs w)"
proof (induction evs arbitrary: h w)
  case Nil
  then show ?case by simp
next
  case (Cons ev evs)
  from Cons.IH [OF consistent_step [OF Cons.prems, of ev], of ] show ?case by simp
qed

subsection \<open>The invariant holds after \<^verbatim>\<open>start\<close>\<close>

lemma getElementById_simps:
  "getElementById d ''pf-canvas'' = (if pf_canvas d then Some PfCanvas else None)"
  "getElementById d ''pf-settings'' = (if pf_settings d \<noteq> None then Some PfSettings else None)"
  "getElementById d ''pf-settings-button'' = (if pf_settings_button d then Some PfSettingsButton else None)"
  "getElementById d ''pf-settings-close-button'' =
     (if pf_settings_close_button d then Some PfSettingsCloseButton else None)"
  "getElementById d ''pf-file-select'' = (if pf_file_select d \<noteq> None then Some PfFileSelect else None)"
  "getElementById d ''pf-select-file'' = (if pf_select_file d \<noteq> None then Some PfSelectFile else None)"
  "getElementById d ''pf-aa-level-select'' =
     (if pf_aa_level_select d \<noteq> None then Some PfAALevelSelect else None)"
  by (simp_all add: getElementById_def element_ids_def element_present_def)

lemma updateAALevel_pending:
  "view w = Some (ViewPending cs) \<Longrightarrow>
   updateAALevel w =
     (case aa_selection w of
        Inl e \<Rightarrow> (Throw e, w)
      | Inr p \<Rightarrow> (Normal, w\<lparr>view := Some (ViewPending (cs @ [p]))\<rparr>))"
  by (simp add: updateAALevel_def view_then_def split: sum.splits prod.splits)

lemma aa_selection_view: "aa_selection (w\<lparr>view := x\<rparr>) = aa_selection w"
  by (simp add: aa_selection_def split: option.splits)

lemma start_world:
  "start (initial_world d) =
     (let w3 = (initial_world d)
            \<lparr>settingsCard := getElementById d ''pf-settings'',
             settingsButton := getElementById d ''pf-settings-button'',
             settingsCloseButton := getElementById d ''pf-settings-close-button''\<rparr>
      in if \<not> pf_settings_button d then (Throw TypeError, w3)
         else if \<not> pf_settings_close_button d
         then (Throw TypeError, w3\<lparr>listeners := [(Element PfSettingsButton, ''click'', ToggleSettings)]\<rparr>)
         else
           let w10 = w3
                 \<lparr>filePickerElement := getElementById d ''pf-file-select'',
                  aaLevelSelect := getElementById d ''pf-aa-level-select'',
                  listeners :=
                    [(Element PfSettingsButton, ''click'', ToggleSettings),
                     (Element PfSettingsCloseButton, ''click'', HideSettings)] @
                    (if pf_file_select d \<noteq> None then [(Element PfFileSelect, ''change'', LoadFile)] else []) @
                    (if pf_select_file d \<noteq> None
                     then [(Element PfSelectFile, ''click'', FileSelectionChanged)] else []),
                  shader_loader :=
                    Some \<lparr>common = Pending, shaders = Pending, all_values = (None, None),
                          all_settled = False, all_canvas = getElementById d ''pf-canvas''\<rparr>,
                  view := Some (ViewPending []),
                  trace := [ShaderLoaderLoad]\<rparr>
           in if pf_aa_level_select d = None then (Throw TypeError, w10)
              else updateAALevel (w10\<lparr>listeners := listeners w10 @ [aa_listener]\<rparr>))"
  by (auto simp add: start_def initial_world_def Let_def addEventListener_def load_shaders_def
        emit_def getElementById_simps aa_listener_def)

lemma start_microtasks: "microtasks (snd (start (initial_world d))) = []"
  unfolding start_world
  by (simp add: Let_def updateAALevel_pending initial_world_def split: sum.splits)

lemma start_listeners:
  "listeners (snd (start (initial_world d))) =
     (if pf_settings_button d
      then (Element PfSettingsButton, ''click'', ToggleSettings) #
        (if pf_settings_close_button d
         then (Element PfSettingsCloseButton, ''click'', HideSettings) #
           (if pf_file_select d \<noteq> None then [(Element PfFileSelect, ''change'', LoadFile)] else []) @
           (if pf_select_file d \<noteq> None then [(Element PfSelectFile, ''click'', FileSelectionChanged)] else []) @
           (if pf_aa_level_select d \<noteq> None then [aa_listener] else [])
         else [])
      else [])"
  unfolding start_world
  by (simp add: Let_def updateAALevel_pending initial_world_def split: sum.splits)

lemma start_listeners_ok: "listeners_ok (listeners (snd (start (initial_world d))))"
  by (simp add: start_listeners) (simp add: listeners_ok_def aa_listener_def)


lemma start_aa_listener:
  "aa_listener \<in> set (listeners (snd (start (initial_world d)))) \<longleftrightarrow>
   pf_settings_button d \<and> pf_settings_close_button d \<and> pf_aa_level_select d \<noteq> None"
  by (simp add: start_listeners) (simp add: aa_listener_def)

lemma start_reaches_update:
  assumes "pf_settings_button d" and "pf_settings_close_button d" and "pf_aa_level_select d \<noteq> None"
  shows "start (initial_world d) = updateAALevel (world_at_line_58 d)"
proof -
  from assms(3) obtain sel where "pf_aa_level_select d = Some sel" by auto
  then show ?thesis
    unfolding start_world using assms(1,2)
    by (simp add: Let_def initial_world_def world_at_line_58_def getElementById_simps)
qed

lemma consistent_started:
  "consistent sub (getElementById d ''pf-canvas'') (first_selection (started sub d)) (started sub d)"
proof -
  let ?w = "snd (start (initial_world d :: 'a world))"
  let ?cv = "getElementById d ''pf-canvas''"
  let ?s = "\<lparr>common = Pending, shaders = Pending, all_values = (None, None),
             all_settled = False, all_canvas = ?cv\<rparr>"
  have st: "started sub d = ?w" by (simp add: started_def drain_Nil start_microtasks)
  have p: "promises_ok sub ?cv (first_selection ?w) (shader_loader ?w)
             (view ?w) (view_calls (trace ?w)) (aa_listener \<in> set (listeners ?w))"
  proof (cases "pf_settings_button d \<and> pf_settings_close_button d")
    case False
    then have "shader_loader ?w = None" "view ?w = None" "trace ?w = []"
      unfolding start_world by (auto simp: Let_def initial_world_def)
    then show ?thesis using False
      by (auto simp: promises_ok_def first_selection_def start_aa_listener)
  next
    case True
    show ?thesis
    proof (cases "pf_aa_level_select d")
      case None
      then have "shader_loader ?w = Some ?s" "view ?w = Some (ViewPending [])"
          "trace ?w = [ShaderLoaderLoad]"
        unfolding start_world using True by (simp_all add: Let_def initial_world_def)
      then show ?thesis using None
        by (simp add: promises_ok_def first_selection_def start_aa_listener)
    next
      case (Some sel)
      define w :: "'a world" where "w = world_at_line_58 d"
      have w: "start (initial_world d) = updateAALevel w"
          "view w = Some (ViewPending [])" "shader_loader w = Some ?s" "trace w = [ShaderLoaderLoad]"
        using start_reaches_update [of d] True Some
        by (simp_all add: w_def) (simp_all add: world_at_line_58_def initial_world_def)
      have a: "aa_listener \<in> set (listeners ?w)"
        using True Some by (simp add: start_aa_listener)
      show ?thesis
      proof (cases "aa_selection w")
        case (Inl e)
        then have e: "?w = w" using w(1,2) by (simp add: updateAALevel_pending)
        have f: "shader_loader ?w = Some ?s" "view ?w = Some (ViewPending [])"
            "trace ?w = [ShaderLoaderLoad]" "aa_selection ?w = Inl e"
          unfolding e using w(2-4) Inl by simp_all
        show ?thesis using a f unfolding first_selection_def
          by (simp add: promises_ok_def)
      next
        case (Inr q)
        then have e: "?w = w\<lparr>view := Some (ViewPending [q])\<rparr>"
          using w(1,2) by (simp add: updateAALevel_pending)
        have f: "shader_loader ?w = Some ?s" "view ?w = Some (ViewPending [q])"
            "trace ?w = [ShaderLoaderLoad]" "aa_selection ?w = Inr q"
          unfolding e using w(2-4) Inr by (simp_all add: aa_selection_view)
        show ?thesis using a f unfolding first_selection_def
          by (simp add: promises_ok_def)
      qed
    qed
  qed
  show ?thesis
    unfolding st consistent_def using p start_microtasks start_listeners_ok by blast
qed


lemma consistent_reachable:
  "consistent sub (getElementById d ''pf-canvas'') (all_selections sub d evs) (run sub evs (started sub d))"
  unfolding all_selections_def by (rule consistent_run [OF consistent_started])

lemma view_fulfilled_step:
  assumes "consistent sub cv h w" and "view w = Some (ViewFulfilled v)"
  shows "view (step sub ev w) = Some (ViewFulfilled v)"
proof -
  have l: "listeners_ok (listeners w)" and m: "microtasks w = []"
    and p: "promises_ok sub cv h (shader_loader w) (Some (ViewFulfilled v)) (view_calls (trace w))
              (aa_listener \<in> set (listeners w))"
    using assms by (simp_all add: consistent_def)
  consider (c) r where "ev = CommonSettles r" | (s) r where "ev = ShadersSettle r"
    | (a) "ev = Fires PfAALevelSelect ''change''"
    | (q) "\<forall>r. ev \<noteq> CommonSettles r" "\<forall>r. ev \<noteq> ShadersSettle r" "ev \<noteq> Fires PfAALevelSelect ''change''"
    by blast
  then show ?thesis
  proof cases
    case c
    obtain s where s: "shader_loader w = Some s" "common s \<noteq> Pending"
      using p by (auto simp: promises_ok_def split: option.splits settled.splits sum.splits)
    then have "settle_common r w = w" by (cases "common s") (simp_all add: settle_common_def)
    then show ?thesis using c m assms(2) by (simp add: step_def drain_Nil)
  next
    case s
    obtain s' where s': "shader_loader w = Some s'" "shaders s' \<noteq> Pending"
      using p by (auto simp: promises_ok_def split: option.splits settled.splits sum.splits)
    then have "settle_shaders r w = w" by (cases "shaders s'") (simp_all add: settle_shaders_def)
    then show ?thesis using s m assms(2) by (simp add: step_def drain_Nil)
  next
    case a
    show ?thesis using a assms(2) l m
      by (auto simp: step_def dispatch_aa updateAALevel_def view_then_def enqueue_def drain_Cons
            drain_Nil emit_def split: sum.splits)
  next
    case q
    from quiet_step [OF assms(1) q] show ?thesis using assms(2) by (simp add: quiet_def)
  qed
qed

lemma view_fulfilled_run:
  "consistent sub cv h w \<Longrightarrow> view w = Some (ViewFulfilled v) \<Longrightarrow>
   view (run sub evs w) = Some (ViewFulfilled v)"
proof (induction evs arbitrary: h w)
  case Nil
  then show ?case by simp
next
  case (Cons ev evs)
  have "consistent sub cv (h @ selected_by ev w) (step sub ev w)"
    using Cons.prems(1) by (rule consistent_step)
  moreover have "view (step sub ev w) = Some (ViewFulfilled v)"
    using Cons.prems by (rule view_fulfilled_step)
  ultimately have "view (run sub evs (step sub ev w)) = Some (ViewFulfilled v)" by (rule Cons.IH)
  then show ?case by simp
qed

lemma aa_selection_line_58:
  "aa_selection (world_at_line_58 d) =
     (case pf_aa_level_select d of
        None \<Rightarrow> Inl TypeError
      | Some sel \<Rightarrow>
          (case selectedOptions sel of
             [] \<Rightarrow> Inl TypeError
           | selectedOption # rest \<Rightarrow>
               (case aa_regexp_exec (option_value selectedOption) of
                  None \<Rightarrow> Inl (ValueExpected None)
                | Some aaValues \<Rightarrow>
                    Inr (fst aaValues,
                         if snd aaValues = Some [] then Finite 1 else parseInt (snd aaValues)))))"
  by (simp add: aa_selection_def world_at_line_58_def initial_world_def the_select_def
        unwrapNull_def Let_def split: option.splits list.splits)

subsection \<open>No operation writes \<open>canvas\<close>\<close>

lemma canvas_updateAALevel: "canvas (snd (updateAALevel w)) = canvas w"
  by (simp add: updateAALevel_def view_then_def enqueue_def
         split: sum.splits prod.splits option.splits view_promise.splits)

lemma canvas_start: "canvas (snd (start w)) = canvas w"
  by (simp add: start_def Let_def addEventListener_def load_shaders_def emit_def
        canvas_updateAALevel split: option.splits)

lemma canvas_fetchFile: "canvas (fetchFile sub f w) = canvas w"
  by (simp add: fetchFile_def emit_def)

lemma canvas_loadFile: "canvas (snd (loadFile tgt w)) = canvas w"
  by (simp add: loadFile_def readAsArrayBuffer_def addEventListener_def emit_def Let_def
         split: sum.splits option.splits list.splits)

lemma canvas_fileSelectionChanged: "canvas (snd (fileSelectionChanged sub tgt w)) = canvas w"
  by (simp add: fileSelectionChanged_def fetchFile_def emit_def Let_def
         split: option.splits list.splits)

lemma canvas_run_listener: "canvas (snd (run_listener sub l t w)) = canvas w"
  by (cases l)
     (simp_all add: run_listener_def settings_click_def canvas_loadFile canvas_fileSelectionChanged
        canvas_updateAALevel loadend_def fileLoaded_def emit_def split: target.splits option.splits)

lemma canvas_foldl:
  "canvas (foldl (\<lambda>w' l. snd (run_listener sub l t w')) w ls) = canvas w"
  by (induction ls arbitrary: w) (simp_all add: canvas_run_listener)

lemma canvas_dispatch: "canvas (dispatch sub t ty w) = canvas w"
  by (simp add: dispatch_def canvas_foldl)

lemma canvas_run_job: "canvas (run_job sub j w) = canvas w"
  by (cases j)
     (simp_all add: all_resolve_def all_reject_def settle_view_def enqueue_def emit_def
        fileLoaded_def Let_def
        split: option.splits prod.splits view_promise.splits sum.splits)

lemma canvas_drain: "canvas (drain sub w) = canvas w"
proof (induction sub w rule: drain.induct)
  case (1 sub w)
  show ?case
  proof (cases "microtasks w")
    case Nil
    then show ?thesis by (simp add: drain_Nil)
  next
    case (Cons j js)
    then show ?thesis using "1.IH" [OF Cons] by (simp add: drain_Cons canvas_run_job)
  qed
qed

lemma canvas_handle: "canvas (handle sub ev w) = canvas w"
  by (cases ev)
     (simp_all add: settle_common_def settle_shaders_def enqueue_def canvas_dispatch
        loadInitialFile_def canvas_fetchFile
        split: option.splits settled.splits sum.splits reader.splits)

lemma canvas_step: "canvas (step sub ev w) = canvas w"
  by (simp add: step_def canvas_drain canvas_handle)

lemma canvas_run: "canvas (run sub evs w) = canvas w"
  by (induction evs arbitrary: w) (simp_all add: canvas_step)

section \<open>The antialiasing selection\<close>

text \<open>
  C1, as the specification states it: for every option string that matches with a
  numeric suffix, the level is the integer value of group 2. The level is a JavaScript
  number, and \<open>9007199254740993\<close>, which is \<open>2 ^ 53 + 1\<close>, is not one: on the page whose
  selected option has the value \<^verbatim>\<open>ecaa-9007199254740993\<close>, \<^verbatim>\<open>start\<close> registers the level
  \<open>9007199254740992\<close>.
\<close>

theorem updateAALevel_level_counterexample:
  "aa_regexp_exec ''ecaa-9007199254740993'' = Some (''ecaa'', Some ''9007199254740993'') \<and>
   digits_value 10 ''9007199254740993'' = 9007199254740993 \<and>
   view (snd (start (initial_world (demo_document ''ecaa-9007199254740993'') :: nat world))) =
     Some (ViewPending [(''ecaa'', Finite 9007199254740992)])"
  by code_simp

text \<open>
  C1, amended: when the selected option's value matches with group 1 \<open>name\<close> and group 2
  \<open>ds\<close>, and the decimal value of \<open>ds\<close> is below \<open>2 ^ 53\<close>, \<^verbatim>\<open>updateAALevel\<close> returns
  normally and hands the pair of \<open>name\<close> and that value to \<^verbatim>\<open>then\<close> on the view promise.
  If the promise is pending or fulfilled, then once it is fulfilled with a view \<open>v\<close> and
  the microtasks have run, the trace has one more call than without the update:
  \<^verbatim>\<open>v.setAntialiasingOptions\<close> with exactly that pair, after the calls for earlier updates.
\<close>

theorem updateAALevel_level:
  assumes "aaLevelSelect w = Some el" and "the_select (doc w) el = Some sel"
    and "selectedOptions sel = opt # rest"
    and "aa_regexp_exec (option_value opt) = Some (name, Some ds)"
    and "digits_value 10 ds < 2 ^ 53"
    and "view w = Some p" and "p = ViewPending cs \<or> p = ViewFulfilled v"
    and "microtasks w = []"
  shows "updateAALevel w = (Normal, view_then p name (Finite (digits_value 10 ds)) w) \<and>
         trace (drain sub (settle_view (Inr v) (snd (updateAALevel w)))) =
         trace (drain sub (settle_view (Inr v) w)) @
           [SetAntialiasingOptions v name (Finite (digits_value 10 ds))]"
proof -
  let ?l = "Finite (digits_value 10 ds)"
  have lvl: "parseInt (Some ds) = ?l"
    using exec_level(2,3) [OF assms(4)] assms(5) by (simp add: parseInt_digits to_double_small)
  have sel: "aa_selection w = Inr (name, ?l)"
    using assms(1-4) exec_level(2) [OF assms(4)]
    by (simp add: aa_selection_def unwrapNull_def lvl)
  have upd: "updateAALevel w = (Normal, view_then p name ?l w)"
    using sel assms(6) by (simp add: updateAALevel_def)
  have "trace (drain sub (settle_view (Inr v) (view_then p name ?l w))) =
        trace (drain sub (settle_view (Inr v) w)) @ [SetAntialiasingOptions v name ?l]"
    using assms(7)
  proof
    assume p: "p = ViewPending cs"
    have a: "drain sub (settle_view (Inr v) (view_then p name ?l w)) =
          w\<lparr>view := Some (ViewFulfilled v), microtasks := [],
            trace := trace w @ map (\<lambda>(aaType, aaLevel). SetAntialiasingOptions v aaType aaLevel) (cs @ [(name, ?l)])\<rparr>"
      using p assms(8)
      by (subst drain_callbacks [where v = v and cs = "cs @ [(name, ?l)]"])
         (simp_all add: view_then_def settle_view_def enqueue_def)
    have b: "drain sub (settle_view (Inr v) w) =
          w\<lparr>view := Some (ViewFulfilled v), microtasks := [],
            trace := trace w @ map (\<lambda>(aaType, aaLevel). SetAntialiasingOptions v aaType aaLevel) cs\<rparr>"
      using p assms(6,8)
      by (subst drain_callbacks [where v = v and cs = cs])
         (simp_all add: settle_view_def enqueue_def)
    show ?thesis by (simp add: a b)
  next
    assume p: "p = ViewFulfilled v"
    show ?thesis using p assms(6,8)
      by (simp add: view_then_def settle_view_def enqueue_def drain_Cons drain_Nil emit_def)
  qed
  with upd show ?thesis by simp
qed

text \<open>The amended C1 on the page whose selected option has the value \<^verbatim>\<open>ecaa-4\<close>.\<close>

theorem updateAALevel_level_witness:
  "aa_regexp_exec ''ecaa-4'' = Some (''ecaa'', Some ''4'') \<and>
   updateAALevel (started demo_implementation (demo_document ''ecaa-4'')) =
     (Normal, view_then (ViewPending [(''ecaa'', Finite 4)]) ''ecaa'' (Finite (digits_value 10 ''4''))
                (started demo_implementation (demo_document ''ecaa-4''))) \<and>
   trace (drain demo_implementation (settle_view (Inr 7)
            (snd (updateAALevel (started demo_implementation (demo_document ''ecaa-4'')))))) =
   trace (drain demo_implementation (settle_view (Inr 7)
            (started demo_implementation (demo_document ''ecaa-4'')))) @
     [SetAntialiasingOptions 7 ''ecaa'' (Finite (digits_value 10 ''4''))]"
proof -
  let ?w = "started demo_implementation (demo_document ''ecaa-4'')"
  have h1: "aaLevelSelect ?w = Some PfAALevelSelect" by code_simp
  have h2: "the_select (doc ?w) PfAALevelSelect = Some (demo_aa_select ''ecaa-4'')" by code_simp
  have h3: "selectedOptions (demo_aa_select ''ecaa-4'') =
      \<lparr>option_id = [], value_attribute = Some ''ecaa-4'', option_text = ''Chosen''\<rparr> # []"
    by code_simp
  have h4: "aa_regexp_exec (option_value \<lparr>option_id = [], value_attribute = Some ''ecaa-4'',
      option_text = ''Chosen''\<rparr>) = Some (''ecaa'', Some ''4'')"
    by code_simp
  have h5: "digits_value 10 ''4'' < 2 ^ 53" by code_simp
  have h6: "view ?w = Some (ViewPending [(''ecaa'', Finite 4)])" by code_simp
  have h7: "ViewPending [(''ecaa'', Finite 4)] = ViewPending [(''ecaa'', Finite 4)] \<or>
      ViewPending [(''ecaa'', Finite 4)] = ViewFulfilled (7::nat)"
    by simp
  have h8: "microtasks ?w = []" by code_simp
  have h9: "aa_regexp_exec ''ecaa-4'' = Some (''ecaa'', Some ''4'')" by code_simp
  from updateAALevel_level [OF h1 h2 h3 h4 h5 h6 h7 h8, of demo_implementation] h9
  show ?thesis by blast
qed

text \<open>
  C2: an option string without a numeric suffix, such as \<^verbatim>\<open>none\<close>, should give level 1.
  The code compares group 2 with the empty string, but a group that took no part in the
  match is \<^verbatim>\<open>undefined\<close>, so the comparison fails and \<^verbatim>\<open>parseInt(undefined)\<close> makes the
  level \<open>NaN\<close>: on the page whose selected option has the value \<^verbatim>\<open>none\<close>, \<^verbatim>\<open>start\<close>
  registers the pair of \<^verbatim>\<open>none\<close> and \<open>NaN\<close>.
\<close>

theorem updateAALevel_none:
  "aa_regexp_exec ''none'' = Some (''none'', None) \<and>
   view (snd (start (initial_world (demo_document ''none'') :: nat world))) =
     Some (ViewPending [(''none'', NaN)])"
  by code_simp

text \<open>The same for every option string without a numeric suffix: the level is \<open>NaN\<close>.\<close>

lemma updateAALevel_no_level:
  assumes "aaLevelSelect w = Some el" and "the_select (doc w) el = Some sel"
    and "selectedOptions sel = opt # rest"
    and "aa_regexp_exec (option_value opt) = Some (name, None)"
    and "view w = Some p"
  shows "updateAALevel w = (Normal, view_then p name NaN w)"
  using assms by (simp add: updateAALevel_def aa_selection_def unwrapNull_def parseInt_undefined)

text \<open>
  C3: when the selected option's value does not match the pattern, \<^verbatim>\<open>updateAALevel\<close>
  throws the failure of \<^verbatim>\<open>unwrapNull\<close> and leaves the world as it was: no callback is
  registered on the view promise, no microtask is queued and nothing is called.
\<close>

theorem updateAALevel_malformed:
  assumes "aaLevelSelect w = Some el" and "the_select (doc w) el = Some sel"
    and "selectedOptions sel = opt # rest"
    and "aa_regexp_exec (option_value opt) = None"
  shows "updateAALevel w = (Throw (ValueExpected None), w)"
  using assms by (simp add: updateAALevel_def aa_selection_def unwrapNull_def)

text \<open>C3 on the page whose selected option has the value \<^verbatim>\<open>ECAA 4\<close>.\<close>

theorem updateAALevel_malformed_witness:
  "aa_regexp_exec ''ECAA 4'' = None \<and>
   updateAALevel (started demo_implementation (demo_document ''ECAA 4'')) =
     (Throw (ValueExpected None), started demo_implementation (demo_document ''ECAA 4''))"
proof -
  let ?w = "started demo_implementation (demo_document ''ECAA 4'')"
  have h1: "aaLevelSelect ?w = Some PfAALevelSelect" by code_simp
  have h2: "the_select (doc ?w) PfAALevelSelect = Some (demo_aa_select ''ECAA 4'')" by code_simp
  have h3: "selectedOptions (demo_aa_select ''ECAA 4'') =
      \<lparr>option_id = [], value_attribute = Some ''ECAA 4'', option_text = ''Chosen''\<rparr> # []"
    by code_simp
  have h4: "aa_regexp_exec (option_value \<lparr>option_id = [], value_attribute = Some ''ECAA 4'',
      option_text = ''Chosen''\<rparr>) = None"
    by code_simp
  have h5: "aa_regexp_exec ''ECAA 4'' = None" by code_simp
  from updateAALevel_malformed [OF h1 h2 h3 h4] h5 show ?thesis by blast
qed

section \<open>Loading files\<close>

text \<open>
  C4: \<^verbatim>\<open>loadFile\<close> with no file selected should fail with the error "No file selected!".
  The code hands the file list itself to \<^verbatim>\<open>expectNotNull\<close>, and an empty list is not
  \<^verbatim>\<open>null\<close>; its first element is \<^verbatim>\<open>undefined\<close>, and the failure is the type error of
  \<^verbatim>\<open>readAsArrayBuffer\<close>.
\<close>

theorem loadFile_no_file:
  "files (doc (started demo_implementation (demo_document ''ecaa-4''))) PfFileSelect = Some [] \<and>
   fst (loadFile PfFileSelect (started demo_implementation (demo_document ''ecaa-4''))) =
     Throw TypeError"
  by code_simp

text \<open>
  The other half of C4 holds: with one file chosen, \<^verbatim>\<open>loadFile\<close> starts reading it, and
  when the read has ended \<open>fileData\<close> holds the bytes of the file and \<^verbatim>\<open>fileLoaded\<close> has
  been called.
\<close>

lemma loadFile_one_file:
  "(let w = run demo_implementation
        [UserChooses [\<lparr>file_name = ''a.svg'', file_bytes = [60, 115]\<rparr>],
         Fires PfFileSelect ''change'', ReadEnds 0 True]
        (started demo_implementation (demo_document ''ecaa-4''))
    in (fileData w, trace w)) =
   (ArrayBuffer [60, 115],
    [ShaderLoaderLoad, ReadAsArrayBuffer 0 \<lparr>file_name = ''a.svg'', file_bytes = [60, 115]\<rparr>,
     FileLoaded (ArrayBuffer [60, 115])])"
  by code_simp

text \<open>
  C5: \<^verbatim>\<open>fetchFile(f)\<close> makes exactly one call, \<^verbatim>\<open>window.fetch\<close> of the built-in URI, a
  slash and \<open>f\<close>. When the response arrives and then its bytes \<open>d\<close>, the callback stores
  \<open>d\<close> in \<open>fileData\<close> and then calls \<^verbatim>\<open>fileLoaded\<close>, which finds \<open>d\<close> there.
\<close>

theorem fetchFile_request:
  assumes "microtasks w = []"
  shows "trace (fetchFile sub f w) = trace w @ [Fetch (builtinFileURI sub @ ''/'' @ f)] \<and>
         (let i = length (requests w);
              w' = step sub (BodyArrives i (Inr d)) (step sub (ResponseArrives i (Inr r)) (fetchFile sub f w))
          in fileData w' = ArrayBuffer d \<and>
             trace w' = trace w @ [Fetch (builtinFileURI sub @ ''/'' @ f), ResponseArrayBuffer i r,
                                   FileLoaded (ArrayBuffer d)])"
  using assms
  by (simp add: fetchFile_def emit_def step_def request_stage_def enqueue_def drain_Cons drain_Nil
        fileLoaded_def Let_def nth_append)

text \<open>C5 on the started demo page, fetching \<^verbatim>\<open>tiger.svg\<close>.\<close>

theorem fetchFile_request_witness:
  "microtasks (started demo_implementation (demo_document ''ecaa-4'')) = [] \<and>
   trace (fetchFile demo_implementation ''tiger.svg'' (started demo_implementation (demo_document ''ecaa-4''))) =
     [ShaderLoaderLoad, Fetch ''/svg/tiger.svg''] \<and>
   fileData (step demo_implementation (BodyArrives 0 (Inr [1, 2, 3]))
     (step demo_implementation (ResponseArrives 0 (Inr 5))
       (fetchFile demo_implementation ''tiger.svg''
         (started demo_implementation (demo_document ''ecaa-4''))))) = ArrayBuffer [1, 2, 3] \<and>
   trace (step demo_implementation (BodyArrives 0 (Inr [1, 2, 3]))
     (step demo_implementation (ResponseArrives 0 (Inr 5))
       (fetchFile demo_implementation ''tiger.svg''
         (started demo_implementation (demo_document ''ecaa-4''))))) =
     [ShaderLoaderLoad, Fetch ''/svg/tiger.svg'', ResponseArrayBuffer 0 5,
      FileLoaded (ArrayBuffer [1, 2, 3])]"
proof -
  let ?w = "started demo_implementation (demo_document ''ecaa-4'')"
  have h1: "microtasks ?w = []" by code_simp
  have h2: "trace ?w = [ShaderLoaderLoad]" by code_simp
  have h3: "builtinFileURI demo_implementation @ ''/'' @ ''tiger.svg'' = ''/svg/tiger.svg''" by code_simp
  have h4: "length (requests ?w) = 0" by code_simp
  from fetchFile_request [OF h1, of demo_implementation "''tiger.svg''" "[1, 2, 3]" 5] h1 h2 h3 h4
  show ?thesis by (simp add: Let_def)
qed

section \<open>The preset selector\<close>

text \<open>
  One custom selection does what C7 says: with \<^verbatim>\<open>load-custom\<close> selected and a file picker
  bound, the handler clicks the picker, puts the placeholder right before the selected
  option and sets the selected index back to what it was. Any other selection removes
  the first placeholder, if there is one, and fetches the selected file.
\<close>

lemma fileSelectionChanged_custom:
  assumes "the_select (doc w) tgt = Some sel" and "selectedOptions sel = opt # rest"
    and "option_value opt = ''load-custom''" and "filePickerElement w = Some picker"
  shows "fileSelectionChanged sub tgt w =
     (Normal, w\<lparr>trace := trace w @ [Click picker],
                doc := put_select tgt
                  (sel\<lparr>options := take (nat (selectedIndex sel)) (options sel) @
                       [\<lparr>option_id = ''pf-custom-option-placeholder'', value_attribute = None,
                         option_text = ''Custom''\<rparr>] @
                       drop (nat (selectedIndex sel)) (options sel)\<rparr>) (doc w)\<rparr>)"
proof -
  have "0 \<le> selectedIndex sel" "selectedIndex sel < int (length (options sel))"
    using assms(2) by (simp_all add: selectedOptions_def split: if_splits)
  then show ?thesis using assms
    by (simp add: fileSelectionChanged_def Let_def emit_def insertBefore_def set_selectedIndex_def)
qed

lemma fileSelectionChanged_other:
  assumes "the_select (doc w) tgt = Some sel" and "selectedOptions sel = opt # rest"
    and "option_value opt \<noteq> ''load-custom''"
  shows "fileSelectionChanged sub tgt w =
     (Normal,
      fetchFile sub (option_value opt)
        (case option_index ''pf-custom-option-placeholder'' (options sel) of
           None \<Rightarrow> w
         | Some placeholder \<Rightarrow> w\<lparr>doc := put_select tgt (removeChild placeholder sel) (doc w)\<rparr>))"
  using assms by (simp add: fileSelectionChanged_def Let_def)

text \<open>
  C7: a second custom selection should not leave two placeholders. The branch for
  \<^verbatim>\<open>load-custom\<close> returns before the code that removes the placeholder: after a click
  with \<^verbatim>\<open>load-custom\<close> selected, the user selecting \<^verbatim>\<open>load-custom\<close> again (now at index
  2) and a second click, the selector holds two options with the placeholder's id.
\<close>

theorem fileSelectionChanged_twice:
  "map option_id
     (case pf_select_file (doc (run demo_implementation
        [Fires PfSelectFile ''click'', UserSelects PfSelectFile 2, Fires PfSelectFile ''click'']
        (started demo_implementation (demo_document ''ecaa-4'')))) of
        Some sel \<Rightarrow> options sel
      | None \<Rightarrow> []) =
   [[], ''pf-custom-option-placeholder'', ''pf-custom-option-placeholder'', []]"
  by code_simp

section \<open>The view promise\<close>

text \<open>
  C6: after \<^verbatim>\<open>start()\<close> and any events, the view promise is fulfilled with \<open>v\<close> exactly
  when both the common shader resource and the per-program shader resource are fulfilled
  and \<^verbatim>\<open>createView\<close>, called with the canvas that \<^verbatim>\<open>start\<close> looked up and the two shader
  values, returned \<open>v\<close>. It is fulfilled once: it keeps the value \<open>v\<close> whatever happens
  later, and \<^verbatim>\<open>createView\<close> is called at most once.
\<close>

theorem view_resolves_after_shaders:
  "(view (run sub evs (started sub d)) = Some (ViewFulfilled v) \<longleftrightarrow>
      (\<exists>s c m. shader_loader (run sub evs (started sub d)) = Some s \<and>
         common s = Fulfilled c \<and> shaders s = Fulfilled m \<and>
         createView sub (getElementById d ''pf-canvas'') c m = Inr v)) \<and>
   (view (run sub evs (started sub d)) = Some (ViewFulfilled v) \<longrightarrow>
      view (run sub evs' (run sub evs (started sub d))) = Some (ViewFulfilled v)) \<and>
   length (create_calls (trace (run sub evs (started sub d)))) \<le> 1"
proof -
  let ?w = "run sub evs (started sub d)"
  let ?cv = "getElementById d ''pf-canvas''"
  have c: "consistent sub ?cv (all_selections sub d evs) ?w" by (rule consistent_reachable)
  then have p: "promises_ok sub ?cv (all_selections sub d evs) (shader_loader ?w) (view ?w)
      (view_calls (trace ?w)) (aa_listener \<in> set (listeners ?w))"
    by (simp add: consistent_def)
  have 1: "view ?w = Some (ViewFulfilled v) \<longleftrightarrow>
      (\<exists>s c m. shader_loader ?w = Some s \<and> common s = Fulfilled c \<and> shaders s = Fulfilled m \<and>
         createView sub ?cv c m = Inr v)"
    using p by (auto simp: promises_ok_def split: option.splits settled.splits sum.splits)
  have 2: "view ?w = Some (ViewFulfilled v) \<longrightarrow> view (run sub evs' ?w) = Some (ViewFulfilled v)"
    using view_fulfilled_run [OF c] by blast
  have "length (create_calls (view_calls (trace ?w))) \<le> 1"
    using p by (auto simp: promises_ok_def create_calls_callbacks split: option.splits settled.splits sum.splits)
  then have 3: "length (create_calls (trace ?w)) \<le> 1" by (simp add: create_calls_view_calls)
  from 1 2 3 show ?thesis by blast
qed

text \<open>C6 on the demo page, when both shader resources arrive.\<close>

theorem view_resolves_after_shaders_witness:
  "view (run demo_implementation [CommonSettles (Inr ''common''), ShadersSettle (Inr (ShaderSources []))]
          (started demo_implementation (demo_document ''ecaa-4''))) = Some (ViewFulfilled 6) \<and>
   (\<exists>s c m. shader_loader (run demo_implementation
                [CommonSettles (Inr ''common''), ShadersSettle (Inr (ShaderSources []))]
                (started demo_implementation (demo_document ''ecaa-4''))) = Some s \<and>
      common s = Fulfilled c \<and> shaders s = Fulfilled m \<and>
      createView demo_implementation (getElementById (demo_document ''ecaa-4'') ''pf-canvas'') c m = Inr 6) \<and>
   view (run demo_implementation [Fires PfAALevelSelect ''change'']
          (run demo_implementation [CommonSettles (Inr ''common''), ShadersSettle (Inr (ShaderSources []))]
            (started demo_implementation (demo_document ''ecaa-4'')))) = Some (ViewFulfilled 6)"
proof -
  have h: "view (run demo_implementation
      [CommonSettles (Inr ''common''), ShadersSettle (Inr (ShaderSources []))]
      (started demo_implementation (demo_document ''ecaa-4''))) = Some (ViewFulfilled 6)"
    by code_simp
  from view_resolves_after_shaders [of demo_implementation
      "[CommonSettles (Inr ''common''), ShadersSettle (Inr (ShaderSources []))]"
      "demo_document ''ecaa-4''" 6 "[Fires PfAALevelSelect ''change'']"] h
  show ?thesis by blast
qed

text \<open>
  C10: after \<^verbatim>\<open>start()\<close> and any events, every call of \<^verbatim>\<open>setAntialiasingOptions\<close> in the
  trace comes after the call of \<^verbatim>\<open>createView\<close> that returned the view it is made on; and
  once the view promise is fulfilled with \<open>v\<close> (and the microtasks of the task have run),
  the calls of \<^verbatim>\<open>setAntialiasingOptions\<close> are exactly the selections that
  \<^verbatim>\<open>updateAALevel\<close> has parsed, the one of \<^verbatim>\<open>start\<close> first, each made on \<open>v\<close>.
\<close>

theorem aa_only_after_view:
  "aa_after_view sub None (trace (run sub evs (started sub d))) \<and>
   (view (run sub evs (started sub d)) = Some (ViewFulfilled v) \<longrightarrow>
      aa_calls (trace (run sub evs (started sub d))) =
        map (\<lambda>(aaType, aaLevel). (v, aaType, aaLevel)) (all_selections sub d evs))"
proof -
  let ?w = "run sub evs (started sub d)"
  let ?cv = "getElementById d ''pf-canvas''"
  have "consistent sub ?cv (all_selections sub d evs) ?w" by (rule consistent_reachable)
  then have p: "promises_ok sub ?cv (all_selections sub d evs) (shader_loader ?w) (view ?w)
      (view_calls (trace ?w)) (aa_listener \<in> set (listeners ?w))"
    by (simp add: consistent_def)
  have "aa_after_view sub None (view_calls (trace ?w))"
    using p by (auto simp: promises_ok_def aa_after_view_callbacks split: option.splits settled.splits sum.splits)
  then have 1: "aa_after_view sub None (trace ?w)" by (simp add: aa_after_view_calls)
  have "view ?w = Some (ViewFulfilled v) \<longrightarrow>
      aa_calls (view_calls (trace ?w)) = map (\<lambda>(aaType, aaLevel). (v, aaType, aaLevel)) (all_selections sub d evs)"
    using p by (auto simp: promises_ok_def aa_calls_callbacks split: option.splits settled.splits sum.splits)
  then have 2: "view ?w = Some (ViewFulfilled v) \<longrightarrow>
      aa_calls (trace ?w) = map (\<lambda>(aaType, aaLevel). (v, aaType, aaLevel)) (all_selections sub d evs)"
    by (simp add: aa_calls_view_calls)
  from 1 2 show ?thesis by blast
qed

text \<open>
  C10 on the demo page: one selection in \<^verbatim>\<open>start\<close>, one while the shaders load, one after
  the view exists.
\<close>

theorem aa_only_after_view_witness:
  "view (run demo_implementation
          [Fires PfAALevelSelect ''change'', CommonSettles (Inr ''common''),
           ShadersSettle (Inr (ShaderSources [])), Fires PfAALevelSelect ''change'']
          (started demo_implementation (demo_document ''ecaa-4''))) = Some (ViewFulfilled 6) \<and>
   all_selections demo_implementation (demo_document ''ecaa-4'')
     [Fires PfAALevelSelect ''change'', CommonSettles (Inr ''common''),
      ShadersSettle (Inr (ShaderSources [])), Fires PfAALevelSelect ''change''] =
     [(''ecaa'', Finite 4), (''ecaa'', Finite 4), (''ecaa'', Finite 4)] \<and>
   aa_calls (trace (run demo_implementation
          [Fires PfAALevelSelect ''change'', CommonSettles (Inr ''common''),
           ShadersSettle (Inr (ShaderSources [])), Fires PfAALevelSelect ''change'']
          (started demo_implementation (demo_document ''ecaa-4'')))) =
     [(6, ''ecaa'', Finite 4), (6, ''ecaa'', Finite 4), (6, ''ecaa'', Finite 4)]"
proof -
  let ?evs = "[Fires PfAALevelSelect ''change'', CommonSettles (Inr ''common''),
      ShadersSettle (Inr (ShaderSources [])), Fires PfAALevelSelect ''change'']"
  let ?d = "demo_document ''ecaa-4''"
  have h: "view (run demo_implementation ?evs (started demo_implementation ?d)) = Some (ViewFulfilled 6)"
    by code_simp
  have s: "all_selections demo_implementation ?d ?evs =
      [(''ecaa'', Finite 4), (''ecaa'', Finite 4), (''ecaa'', Finite 4)]"
    by code_simp
  from aa_only_after_view [of demo_implementation ?evs ?d 6] h s
  show ?thesis by simp
qed

section \<open>Binding the elements\<close>

text \<open>
  C8, as the specification states it: \<^verbatim>\<open>start()\<close> throws whenever the canvas or the
  settings panel is absent. On the demo page without canvas and without settings panel
  both lookups give \<^verbatim>\<open>null\<close>, and \<^verbatim>\<open>start\<close> returns normally.
\<close>

theorem start_completion_counterexample:
  "getElementById ((demo_document ''ecaa-4'')\<lparr>pf_canvas := False, pf_settings := None\<rparr>) ''pf-canvas'' = None \<and>
   getElementById ((demo_document ''ecaa-4'')\<lparr>pf_canvas := False, pf_settings := None\<rparr>) ''pf-settings'' = None \<and>
   fst (start (initial_world ((demo_document ''ecaa-4'')\<lparr>pf_canvas := False, pf_settings := None\<rparr>) :: nat world)) =
     Normal"
  by code_simp

text \<open>
  C8, amended: on a fresh controller \<^verbatim>\<open>start()\<close> throws a type error when the settings
  button, the settings close button or the antialiasing selector is absent, and otherwise
  completes as its call of \<^verbatim>\<open>updateAALevel\<close> does. Whether the canvas, the settings panel,
  the file picker or the preset selector is present makes no difference to that. For an
  absent file picker or preset selector no listener is registered; the listeners of
  \<^verbatim>\<open>start\<close> are those of the elements that are present, up to the first throw.
\<close>

theorem start_completion:
  "fst (start (initial_world d :: 'v world)) =
     (if pf_settings_button d \<and> pf_settings_close_button d
      then (case pf_aa_level_select d of
              None \<Rightarrow> Throw TypeError
            | Some sel \<Rightarrow>
                (case selectedOptions sel of
                   [] \<Rightarrow> Throw TypeError
                 | selectedOption # rest \<Rightarrow>
                     (case aa_regexp_exec (option_value selectedOption) of
                        None \<Rightarrow> Throw (ValueExpected None)
                      | Some aaValues \<Rightarrow> Normal)))
      else Throw TypeError) \<and>
   listeners (snd (start (initial_world d :: 'v world))) =
     (if pf_settings_button d
      then (Element PfSettingsButton, ''click'', ToggleSettings) #
        (if pf_settings_close_button d
         then (Element PfSettingsCloseButton, ''click'', HideSettings) #
           (if pf_file_select d \<noteq> None then [(Element PfFileSelect, ''change'', LoadFile)] else []) @
           (if pf_select_file d \<noteq> None then [(Element PfSelectFile, ''click'', FileSelectionChanged)] else []) @
           (if pf_aa_level_select d \<noteq> None then [aa_listener] else [])
         else [])
      else [])"
proof -
  have "fst (start (initial_world d :: 'v world)) =
     (if pf_settings_button d \<and> pf_settings_close_button d
      then (case pf_aa_level_select d of
              None \<Rightarrow> Throw TypeError
            | Some sel \<Rightarrow>
                (case selectedOptions sel of
                   [] \<Rightarrow> Throw TypeError
                 | selectedOption # rest \<Rightarrow>
                     (case aa_regexp_exec (option_value selectedOption) of
                        None \<Rightarrow> Throw (ValueExpected None)
                      | Some aaValues \<Rightarrow> Normal)))
      else Throw TypeError)"
  proof (cases "pf_settings_button d \<and> pf_settings_close_button d")
    case False
    then show ?thesis unfolding start_world by (auto simp: Let_def)
  next
    case True
    show ?thesis
    proof (cases "pf_aa_level_select d")
      case None
      then show ?thesis unfolding start_world using True by (simp add: Let_def)
    next
      case (Some sel)
      have v: "view (world_at_line_58 d :: 'v world) = Some (ViewPending [])"
        by (simp add: world_at_line_58_def)
      have "start (initial_world d :: 'v world) = updateAALevel (world_at_line_58 d)"
        using True Some by (intro start_reaches_update) simp_all
      then show ?thesis using True Some
        by (simp add: updateAALevel_pending [OF v] aa_selection_line_58
              split: list.splits option.splits)
    qed
  qed
  then show ?thesis using start_listeners [of d] by simp
qed

section \<open>The \<open>canvas\<close> field\<close>

text \<open>
  C9: no operation of the controller assigns the field \<open>canvas\<close>: \<^verbatim>\<open>start\<close>,
  \<^verbatim>\<open>loadInitialFile\<close>, \<^verbatim>\<open>updateAALevel\<close>, \<^verbatim>\<open>loadFile\<close>, \<^verbatim>\<open>fileSelectionChanged\<close> and
  \<^verbatim>\<open>fetchFile\<close> leave it as it is, and so does every task with its listeners and
  callbacks; on a started controller it is \<^verbatim>\<open>undefined\<close> after any events.
\<close>

theorem canvas_never_assigned:
  "canvas (snd (start w)) = canvas w \<and>
   canvas (loadInitialFile sub w) = canvas w \<and>
   canvas (snd (updateAALevel w)) = canvas w \<and>
   canvas (snd (loadFile tgt w)) = canvas w \<and>
   canvas (snd (fileSelectionChanged sub tgt w)) = canvas w \<and>
   canvas (fetchFile sub f w) = canvas w \<and>
   canvas (step sub ev w) = canvas w \<and>
   canvas (run sub evs (started sub d)) = None"
proof -
  have "canvas (started sub d) = None"
    by (simp add: started_def canvas_drain canvas_start initial_world_def)
  then have "canvas (run sub evs (started sub d)) = None" by (simp add: canvas_run)
  then show ?thesis
    by (simp add: canvas_start canvas_updateAALevel canvas_loadFile canvas_fileSelectionChanged
          canvas_fetchFile canvas_step loadInitialFile_def)
qed

end
